theory Spec2Isabelle
  imports Complex_Main "HOL-Library.Word" "HOL-Library.FSet"
begin

section \<open>The event-ingestion service of python-service/main.py\<close>

text \<open>
  The service answers one request per connection.  A connection is handled by the
  coroutine \<open>handle\<close>, which reads the request from a stream, classifies it by a
  substring test, and either reports the aggregates (\<open>GET /stats\<close>) or applies one
  event to them (\<open>POST /event\<close>).  The aggregates are three module-level objects:
  \<open>req_total\<close> (a C int), \<open>req_sum\<close> (a C float) and \<open>shards\<close> (a list of 1024 sets).

  Byte strings are \<open>string\<close> (lists of \<open>char\<close>, one per byte).  Exceptions are values of
  \<open>py_error\<close>; a computation that may raise returns \<open>py_error + 'a\<close>.
\<close>

subsection \<open>Exceptions\<close>

datatype py_error =
    ValueError | TypeError | AttributeError | JSONDecodeError
  | ZeroDivisionError | OverflowError | IndexError | ConnectionError

subsection \<open>Operations on byte strings\<close>

text \<open>\<open>s.startswith(p)\<close>.\<close>

fun startswith :: "string \<Rightarrow> string \<Rightarrow> bool" where
  "startswith s [] = True"
| "startswith [] (p # ps) = False"
| "startswith (c # cs) (p # ps) = (c = p \<and> startswith cs ps)"

text \<open>\<open>p in s\<close> for byte strings: \<open>p\<close> occurs in \<open>s\<close> as a contiguous run.\<close>

fun bytes_in :: "string \<Rightarrow> string \<Rightarrow> bool" where
  "bytes_in p [] = (p = [])"
| "bytes_in p (c # cs) = (startswith (c # cs) p \<or> bytes_in p cs)"

text \<open>
  \<open>s.split(sep)\<close> for a non-empty separator: the pieces between the occurrences of
  \<open>sep\<close>, found from left to right without overlap.  \<open>skip\<close> counts the bytes of a
  separator that has just been matched and is still to be passed over; \<open>cur\<close> is the
  piece being collected, reversed.  (Python raises \<open>ValueError\<close> for an empty separator;
  the handler only splits at a constant of four bytes.)
\<close>

fun split_scan :: "string \<Rightarrow> nat \<Rightarrow> string \<Rightarrow> string \<Rightarrow> string list" where
  "split_scan sep skip cur [] = [rev cur]"
| "split_scan sep (Suc k) cur (c # cs) = split_scan sep k cur cs"
| "split_scan sep 0 cur (c # cs) =
     (if startswith (c # cs) sep then rev cur # split_scan sep (length sep - 1) [] cs
      else split_scan sep 0 (c # cur) cs)"

definition bytes_split :: "string \<Rightarrow> string \<Rightarrow> string list" where
  "bytes_split s sep = split_scan sep 0 [] s"

text \<open>\<open>s.count(sep)\<close>: the number of non-overlapping occurrences, from left to right.\<close>

fun count_scan :: "string \<Rightarrow> nat \<Rightarrow> string \<Rightarrow> nat" where
  "count_scan sep skip [] = 0"
| "count_scan sep (Suc k) (c # cs) = count_scan sep k cs"
| "count_scan sep 0 (c # cs) =
     (if startswith (c # cs) sep then Suc (count_scan sep (length sep - 1) cs)
      else count_scan sep 0 cs)"

definition bytes_count :: "string \<Rightarrow> string \<Rightarrow> nat" where
  "bytes_count s sep = count_scan sep 0 s"

text \<open>The bytes \<open>\r\<close> and \<open>\n\<close>, and the blank-line sequence \<open>b"\r\n\r\n"\<close>.\<close>

definition CR :: char where "CR = CHR 0x0D"
definition LF :: char where "LF = CHR 0x0A"

definition CRLF :: string where "CRLF = [CR, LF]"
definition BLANK_LINE :: string where "BLANK_LINE = CRLF @ CRLF"

subsection \<open>The pattern \<open>REQ_RE_LEN\<close>\<close>

text \<open>
  \<open>re.compile(rb"(?i)^Content-Length:\s*(\d+)", re.MULTILINE)\<close>.  For a bytes pattern
  \<open>\s\<close> is one of the six ASCII whitespace bytes, \<open>\d\<close> an ASCII digit, and \<open>(?i)\<close>
  folds the ASCII letters only.
\<close>

definition is_space :: "char \<Rightarrow> bool" where
  "is_space c = (c \<in> set [CHR '' '', CHR 0x09, CHR 0x0A, CHR 0x0B, CHR 0x0C, CHR 0x0D])"

definition is_digit :: "char \<Rightarrow> bool" where
  "is_digit c = (c \<in> set ''0123456789'')"

definition ascii_lower :: "char \<Rightarrow> char" where
  "ascii_lower c =
     (case map_of (zip ''ABCDEFGHIJKLMNOPQRSTUVWXYZ'' ''abcdefghijklmnopqrstuvwxyz'') c of
        Some l \<Rightarrow> l | None \<Rightarrow> c)"

definition digit_value :: "char \<Rightarrow> int" where
  "digit_value c =
     (case map_of (zip ''0123456789'' [0, 1, 2, 3, 4, 5, 6, 7, 8, 9]) c of
        Some d \<Rightarrow> d | None \<Rightarrow> 0)"

text \<open>\<open>int(ds)\<close> for a run of ASCII digits.\<close>

definition int_of_digits :: "string \<Rightarrow> int" where
  "int_of_digits ds = foldl (\<lambda>n c. 10 * n + digit_value c) 0 ds"

text \<open>
  The pattern tried at one position.  \<open>\s*\<close> is greedy and a whitespace byte is not a
  digit, so the pattern matches exactly when a digit follows the longest run of whitespace
  after the colon; group 1 is then the longest run of digits.
\<close>

definition re_len_match :: "string \<Rightarrow> int option" where
  "re_len_match s =
     (if startswith (map ascii_lower s) ''content-length:'' then
        (let ds = takeWhile is_digit (dropWhile is_space (drop 15 s))
         in if ds = [] then None else Some (int_of_digits ds))
      else None)"

text \<open>
  \<open>REQ_RE_LEN.search(s)\<close>, returning \<open>int(m.group(1))\<close> of the leftmost match.  With
  \<open>re.MULTILINE\<close> the anchor \<open>^\<close> holds at the start of the buffer and after every
  \<open>\n\<close>; \<open>bol\<close> says whether the current position is such a place.
\<close>

fun re_len_search :: "bool \<Rightarrow> string \<Rightarrow> int option" where
  "re_len_search bol [] = None"
| "re_len_search bol (c # cs) =
     (case (if bol then re_len_match (c # cs) else None) of
        Some n \<Rightarrow> Some n
      | None \<Rightarrow> re_len_search (c = LF) cs)"

subsection \<open>The stream reader\<close>

text \<open>
  \<open>await reader.read(n)\<close> returns at most \<open>n\<close> bytes: whatever the stream's buffer
  holds once it holds at least one byte, \<open>b""\<close> at end of file, or it raises when the
  connection fails.  A connection is the list of what its successive reads find: \<open>Data d\<close>
  for a buffer holding \<open>d\<close>, \<open>ReadError\<close> for a failed read; the empty list is end of
  file.  Bytes beyond \<open>n\<close> stay in the buffer for the next read.
\<close>

datatype read_event = Data string | ReadError

type_synonym reader = "read_event list"

fun reader_read :: "nat \<Rightarrow> reader \<Rightarrow> (py_error + string) \<times> reader" where
  "reader_read n [] = (Inr [], [])"
| "reader_read n (ReadError # rd) = (Inl ConnectionError, rd)"
| "reader_read n (Data d # rd) =
     (Inr (take n d), if n < length d then Data (drop n d) # rd else rd)"

subsection \<open>Values decoded from JSON\<close>

text \<open>
  The Python objects \<open>orjson.loads\<close> builds.  A \<open>dict\<close> is kept as its key/value pairs
  in document order; a later pair with the same key replaces an earlier one, so a lookup
  finds the last.  \<open>'f\<close> is the type of Python's floats.
\<close>

datatype 'f json =
    JNull | JBool bool | JInt int | JFloat 'f | JStr string
  | JList "'f json list" | JDict "(string \<times> 'f json) list"

text \<open>\<open>d.get(k, default)\<close>.\<close>

definition dict_get :: "(string \<times> 'f json) list \<Rightarrow> string \<Rightarrow> 'f json \<Rightarrow> 'f json" where
  "dict_get kvs k dflt = (case map_of (rev kvs) k of Some v \<Rightarrow> v | None \<Rightarrow> dflt)"

text \<open>
  The elements of the shard sets.  Python compares set elements with \<open>==\<close>, under which
  \<open>True\<close>, \<open>1\<close> and \<open>1.0\<close> are one element; a key is the value up to \<open>==\<close>: \<open>None\<close>,
  a number equal to an integer, another float, or a string.
\<close>

datatype 'f pykey = KNone | KNum int | KFloat 'f | KStr string

subsection \<open>The interpreter and library primitives\<close>

text \<open>
  What the handler takes from the Python runtime and from \<open>orjson\<close> is a parameter of
  the model, so that every theorem below holds whatever these primitives compute:
  \<^item> \<open>py_hash\<close>: the built-in \<open>hash\<close> on hashable values (seeded once per process, a
    function of the value from then on);
  \<^item> \<open>orjson_loads\<close>: \<open>orjson.loads(b.decode())\<close> on a byte string;
  \<^item> \<open>float_of_int\<close>, \<open>float_of_str\<close>: \<open>float(x)\<close> for an \<open>int\<close> and a \<open>str\<close>;
  \<^item> \<open>float_eq_int\<close>: the integer a float is \<open>==\<close> to, if there is one;
  \<^item> \<open>float_add\<close>, \<open>float_div_int\<close>: \<open>x + y\<close> on floats and \<open>x / n\<close> for a float and a
    non-zero \<open>int\<close>;
  \<^item> \<open>c_float\<close>: a Python float stored in a C \<open>float\<close> and read back;
  \<^item> \<open>float_zero\<close>: the literal \<open>0.0\<close>;
  \<^item> \<open>float_repr\<close>: a float formatted by an f-string.
\<close>

record 'f runtime =
  py_hash :: "'f pykey \<Rightarrow> int"
  orjson_loads :: "string \<Rightarrow> py_error + 'f json"
  float_of_int :: "int \<Rightarrow> py_error + 'f"
  float_of_str :: "string \<Rightarrow> py_error + 'f"
  float_eq_int :: "'f \<Rightarrow> int option"
  float_add :: "'f \<Rightarrow> 'f \<Rightarrow> 'f"
  float_div_int :: "'f \<Rightarrow> int \<Rightarrow> 'f"
  c_float :: "'f \<Rightarrow> 'f"
  float_zero :: "'f"
  float_repr :: "'f \<Rightarrow> string"

text \<open>The key of a hashable value; \<open>hash\<close> raises \<open>TypeError\<close> on a list or a dict.\<close>

fun py_key :: "'f runtime \<Rightarrow> 'f json \<Rightarrow> py_error + 'f pykey" where
  "py_key rt JNull = Inr KNone"
| "py_key rt (JBool b) = Inr (KNum (if b then 1 else 0))"
| "py_key rt (JInt i) = Inr (KNum i)"
| "py_key rt (JFloat x) =
     Inr (case float_eq_int rt x of Some i \<Rightarrow> KNum i | None \<Rightarrow> KFloat x)"
| "py_key rt (JStr s) = Inr (KStr s)"
| "py_key rt (JList vs) = Inl TypeError"
| "py_key rt (JDict kvs) = Inl TypeError"

text \<open>\<open>float(v)\<close>.\<close>

fun py_float :: "'f runtime \<Rightarrow> 'f json \<Rightarrow> py_error + 'f" where
  "py_float rt JNull = Inl TypeError"
| "py_float rt (JBool b) = float_of_int rt (if b then 1 else 0)"
| "py_float rt (JInt i) = float_of_int rt i"
| "py_float rt (JFloat x) = Inr x"
| "py_float rt (JStr s) = float_of_str rt s"
| "py_float rt (JList vs) = Inl TypeError"
| "py_float rt (JDict kvs) = Inl TypeError"

text \<open>\<open>x / n\<close> for a float \<open>x\<close> and an int \<open>n\<close>.\<close>

definition py_truediv :: "'f runtime \<Rightarrow> 'f \<Rightarrow> int \<Rightarrow> py_error + 'f" where
  "py_truediv rt x n = (if n = 0 then Inl ZeroDivisionError else Inr (float_div_int rt x n))"

text \<open>\<open>str(n)\<close> for an int.\<close>

definition digit_char :: "nat \<Rightarrow> char" where
  "digit_char d = ''0123456789'' ! d"

fun str_nat :: "nat \<Rightarrow> string" where
  "str_nat n = (if n < 10 then [digit_char n] else str_nat (n div 10) @ [digit_char (n mod 10)])"

declare str_nat.simps [simp del]

definition str_int :: "int \<Rightarrow> string" where
  "str_int i = (if i < 0 then CHR ''-'' # str_nat (nat (- i)) else str_nat (nat i))"

subsection \<open>The aggregate state\<close>

text \<open>
  \<open>req_total = Value("i", 0)\<close> is a C \<open>int\<close>: 32 bits, read as a signed number, and an
  assignment keeps the low 32 bits.  \<open>req_sum = Value("f", 0)\<close> is a C \<open>float\<close>; the
  field holds what \<open>req_sum.value\<close> reads.  \<open>shards\<close> is the list of 1024 sets.
\<close>

record 'f aggregate =
  req_total :: "32 word"
  req_sum :: 'f
  shards :: "'f pykey fset list"

definition NUM_SHARDS :: nat where
  "NUM_SHARDS = 1024"

definition initial_state :: "'f runtime \<Rightarrow> 'f aggregate" where
  "initial_state rt =
     \<lparr>req_total = 0, req_sum = float_zero rt, shards = replicate NUM_SHARDS {||}\<rparr>"

text \<open>\<open>shard_index(user_id)\<close>: \<open>hash(user_id) % NUM_SHARDS\<close>, with Python's \<open>%\<close>.\<close>

definition shard_index :: "'f runtime \<Rightarrow> 'f json \<Rightarrow> py_error + nat" where
  "shard_index rt user_id =
     (case py_key rt user_id of
        Inl e \<Rightarrow> Inl e
      | Inr k \<Rightarrow> Inr (nat (py_hash rt k mod int NUM_SHARDS)))"

text \<open>
  \<open>add_unique_user(user_id)\<close>: the lock of shard \<open>i\<close> is taken around the one statement
  \<open>shards[i].add(user_id)\<close>, which does not suspend.
\<close>

definition add_unique_user ::
  "'f runtime \<Rightarrow> 'f json \<Rightarrow> 'f pykey fset list \<Rightarrow> py_error + 'f pykey fset list" where
  "add_unique_user rt user_id sh =
     (case shard_index rt user_id of
        Inl e \<Rightarrow> Inl e
      | Inr i \<Rightarrow>
          (case py_key rt user_id of
             Inl e \<Rightarrow> Inl e
           | Inr k \<Rightarrow>
               if i < length sh then Inr (sh[i := finsert k (sh ! i)]) else Inl IndexError))"

text \<open>\<open>unique_count()\<close>: \<open>sum(len(s) for s in shards)\<close>.\<close>

definition unique_count :: "'f pykey fset list \<Rightarrow> nat" where
  "unique_count sh = sum_list (map fcard sh)"

subsection \<open>Responses\<close>

definition HTTP_200_PREF :: string where
  "HTTP_200_PREF =
     ''HTTP/1.1 200 OK'' @ CRLF @ ''Content-Type: application/json'' @ CRLF
     @ ''Connection: close'' @ CRLF @ ''Content-Length: ''"

definition HTTP_404 :: string where
  "HTTP_404 =
     ''HTTP/1.1 404 Not Found'' @ CRLF @ ''Connection: close'' @ CRLF
     @ ''Content-Length: 9'' @ CRLF @ CRLF @ ''Not Found''"

definition HTTP_500 :: string where
  "HTTP_500 =
     ''HTTP/1.1 500 Internal Server Error'' @ CRLF @ ''Connection: close'' @ CRLF
     @ ''Content-Length: 21'' @ CRLF @ CRLF @ ''Internal Server Error''"

text \<open>The f-string of lines 56 and 84, given the four values it formats.\<close>

definition body_response :: "'f runtime \<Rightarrow> int \<Rightarrow> nat \<Rightarrow> 'f \<Rightarrow> 'f \<Rightarrow> string" where
  "body_response rt tot uniq s avg =
     ''{\"totalRequests\":'' @ str_int tot @ '',\"uniqueUsers\":'' @ str_nat uniq
     @ '',\"sum\":'' @ float_repr rt s @ '',\"avg\":'' @ float_repr rt avg @ ''}''"

text \<open>Lines 57 to 62 and 85 to 90: the framing of a 200 response.\<close>

definition http_200 :: "string \<Rightarrow> string" where
  "http_200 body = HTTP_200_PREF @ str_nat (length body) @ BLANK_LINE @ body"

subsection \<open>The request handler\<close>

text \<open>
  Line 56, the \<open>GET /stats\<close> branch: the average is a division only when
  \<open>req_total.value\<close> is truthy, and the literal \<open>0.0\<close> otherwise.
\<close>

definition stats_response :: "'f runtime \<Rightarrow> 'f aggregate \<Rightarrow> py_error + string" where
  "stats_response rt st =
     (case (if req_total st \<noteq> 0 then py_truediv rt (req_sum st) (sint (req_total st))
            else Inr (float_zero rt)) of
        Inl e \<Rightarrow> Inl e
      | Inr avg \<Rightarrow>
          Inr (http_200 (body_response rt (sint (req_total st)) (unique_count (shards st))
                           (req_sum st) avg)))"

text \<open>
  Lines 68 to 75: the buffer is split at the blank line into exactly two pieces (the
  unpacking raises \<open>ValueError\<close> otherwise), and the declared length is searched for in
  the whole buffer, 0 when the pattern does not match.  The result is \<open>body_sofar\<close> and
  \<open>remaining\<close>.
\<close>

definition split_request :: "string \<Rightarrow> py_error + string \<times> int" where
  "split_request data_bin =
     (case bytes_split data_bin BLANK_LINE of
        [hd_part, body_sofar] \<Rightarrow>
          (let content_length = (case re_len_search True data_bin of
                                   Some n \<Rightarrow> n | None \<Rightarrow> 0)
           in Inr (body_sofar, content_length - int (length body_sofar)))
      | _ \<Rightarrow> Inl ValueError)"

text \<open>
  Lines 76 and 77: when bytes remain, what one further read of at most \<open>remaining\<close>
  bytes returns is appended.  The result is the \<open>body_sofar\<close> that line 79 decodes.
\<close>

definition read_remaining :: "string \<Rightarrow> int \<Rightarrow> reader \<Rightarrow> py_error + string" where
  "read_remaining body_sofar remaining rd =
     (if remaining > 0 then
        (case fst (reader_read (nat remaining) rd) of
           Inl e \<Rightarrow> Inl e
         | Inr extra \<Rightarrow> Inr (body_sofar @ extra))
      else Inr body_sofar)"

definition receive_body :: "string \<Rightarrow> reader \<Rightarrow> py_error + string" where
  "receive_body data_bin rd =
     (case split_request data_bin of
        Inl e \<Rightarrow> Inl e
      | Inr (body_sofar, remaining) \<Rightarrow> read_remaining body_sofar remaining rd)"

text \<open>
  Lines 79 to 90.  Every statement may raise; the state a raise leaves behind is the
  state the statements before it have built, so the result carries the state in both
  cases.  Line 80 takes \<open>body.get\<close>, which only a dict has, and records the user; line 81
  converts the value and adds it to \<open>req_sum\<close>; line 82 increments \<open>req_total\<close>; line 84
  divides by the new \<open>req_total\<close>.
\<close>

definition apply_event ::
  "'f runtime \<Rightarrow> 'f aggregate \<Rightarrow> string \<Rightarrow> (py_error + string) \<times> 'f aggregate" where
  "apply_event rt st body_sofar =
     (case orjson_loads rt body_sofar of
        Inl e \<Rightarrow> (Inl e, st)
      | Inr body \<Rightarrow>
          (case body of
             JDict kvs \<Rightarrow>
               (case add_unique_user rt (dict_get kvs ''userId'' JNull) (shards st) of
                  Inl e \<Rightarrow> (Inl e, st)
                | Inr sh \<Rightarrow>
                    (let st1 = st\<lparr>shards := sh\<rparr> in
                     case py_float rt (dict_get kvs ''value'' (JInt 0)) of
                       Inl e \<Rightarrow> (Inl e, st1)
                     | Inr x \<Rightarrow>
                         (let st2 = st1\<lparr>req_sum := c_float rt (float_add rt (req_sum st1) x)\<rparr>;
                              st3 = st2\<lparr>req_total := req_total st2 + 1\<rparr>
                          in case py_truediv rt (req_sum st3) (sint (req_total st3)) of
                               Inl e \<Rightarrow> (Inl e, st3)
                             | Inr avg \<Rightarrow>
                                 (Inr (http_200 (body_response rt (sint (req_total st3))
                                                   (unique_count (shards st3)) (req_sum st3) avg)),
                                  st3))))
           | _ \<Rightarrow> (Inl AttributeError, st)))"

text \<open>The body of the inner \<open>try\<close>, lines 66 to 90.\<close>

definition event_try ::
  "'f runtime \<Rightarrow> 'f aggregate \<Rightarrow> string \<Rightarrow> reader \<Rightarrow> (py_error + string) \<times> 'f aggregate" where
  "event_try rt st data_bin rd =
     (case receive_body data_bin rd of
        Inl e \<Rightarrow> (Inl e, st)
      | Inr body_sofar \<Rightarrow> apply_event rt st body_sofar)"

text \<open>
  The body of the outer \<open>try\<close>, lines 52 to 96: the initial read, the two substring
  tests of lines 55 and 65, and for an event the inner \<open>try\<close> with its \<open>except\<close> of
  line 92, which chooses \<open>HTTP_500\<close>.
\<close>

definition handle_try ::
  "'f runtime \<Rightarrow> 'f aggregate \<Rightarrow> reader \<Rightarrow> (py_error + string) \<times> 'f aggregate" where
  "handle_try rt st rd =
     (case reader_read 2048 rd of
        (Inl e, rd') \<Rightarrow> (Inl e, st)
      | (Inr data_bin, rd') \<Rightarrow>
          if bytes_in ''GET /stats '' data_bin then (stats_response rt st, st)
          else if bytes_in ''POST /event '' data_bin then
            (case event_try rt st data_bin rd' of
               (Inl e, st') \<Rightarrow> (Inr HTTP_500, st')
             | (Inr response, st') \<Rightarrow> (Inr response, st'))
          else (Inr HTTP_404, st))"

text \<open>
  \<open>handle(reader, writer)\<close>: the response that the \<open>finally\<close> clause writes to the
  connection, and the aggregate state afterwards.  The outer \<open>except\<close> of line 98
  chooses \<open>HTTP_500\<close>.
\<close>

definition handle :: "'f runtime \<Rightarrow> 'f aggregate \<Rightarrow> reader \<Rightarrow> string \<times> 'f aggregate" where
  "handle rt st rd =
     (case handle_try rt st rd of
        (Inl e, st') \<Rightarrow> (HTTP_500, st')
      | (Inr response, st') \<Rightarrow> (response, st'))"

text \<open>Connections served one after the other, each to completion.\<close>

fun serve :: "'f runtime \<Rightarrow> 'f aggregate \<Rightarrow> reader list \<Rightarrow> 'f aggregate" where
  "serve rt st [] = st"
| "serve rt st (rd # rds) = serve rt (snd (handle rt st rd)) rds"

section \<open>A runtime to run the handler on concrete requests\<close>

text \<open>
  The theorems of this development hold for every runtime.  To evaluate the handler on a
  concrete connection, \<open>exact_runtime\<close> supplies one: floats are rational numbers with
  exact arithmetic (so no rounding happens in it), and \<open>json_loads\<close> decodes JSON
  texts made of ASCII bytes whose strings use no \<open>\u\<close> escape, and rejects everything
  else.  On the requests evaluated below it decodes what \<open>orjson\<close> decodes.
\<close>

subsection \<open>Tokens\<close>

datatype token =
    TLBrace | TRBrace | TLBracket | TRBracket | TColon | TComma
  | TString string | TNumber string | TWord string

text \<open>
  The tokenizer reads one byte at a time.  Outside a token it is \<open>Idle\<close>; inside a
  string, after a backslash, inside a number or inside a literal name it carries the
  bytes read so far, latest first.
\<close>

datatype lex_mode = Idle | InString string | InEscape string | InNumber string | InWord string

definition json_ws :: "char \<Rightarrow> bool" where
  "json_ws c = (c \<in> set [CHR '' '', CHR 0x09, CHR 0x0A, CHR 0x0D])"

definition number_char :: "char \<Rightarrow> bool" where
  "number_char c = (c \<in> set ''+-.0123456789eE'')"

definition word_char :: "char \<Rightarrow> bool" where
  "word_char c = (c \<in> set ''abcdefghijklmnopqrstuvwxyz'')"

text \<open>The bytes \<open>0x20\<close> to \<open>0x7F\<close>.\<close>

definition plain_char :: "char \<Rightarrow> bool" where
  "plain_char c = (case c of Char b0 b1 b2 b3 b4 b5 b6 b7 \<Rightarrow> \<not> b7 \<and> (b5 \<or> b6))"

definition punctuation :: "(char \<times> token) list" where
  "punctuation =
     [(CHR ''{'', TLBrace), (CHR ''}'', TRBrace), (CHR ''['', TLBracket),
      (CHR '']'', TRBracket), (CHR '':'', TColon), (CHR '','', TComma)]"

definition escapes :: "(char \<times> char) list" where
  "escapes =
     [(CHR 0x22, CHR 0x22), (CHR 0x5C, CHR 0x5C), (CHR ''/'', CHR ''/''),
      (CHR ''b'', CHR 0x08), (CHR ''f'', CHR 0x0C), (CHR ''n'', CHR 0x0A),
      (CHR ''r'', CHR 0x0D), (CHR ''t'', CHR 0x09)]"

definition idle_step :: "token list \<Rightarrow> char \<Rightarrow> (lex_mode \<times> token list) option" where
  "idle_step ts c =
     (if json_ws c then Some (Idle, ts)
      else case map_of punctuation c of
        Some t \<Rightarrow> Some (Idle, t # ts)
      | None \<Rightarrow>
          if c = CHR 0x22 then Some (InString [], ts)
          else if number_char c then Some (InNumber [c], ts)
          else if word_char c then Some (InWord [c], ts)
          else None)"

fun lex_step :: "lex_mode \<Rightarrow> token list \<Rightarrow> char \<Rightarrow> (lex_mode \<times> token list) option" where
  "lex_step Idle ts c = idle_step ts c"
| "lex_step (InString acc) ts c =
     (if c = CHR 0x22 then Some (Idle, TString (rev acc) # ts)
      else if c = CHR 0x5C then Some (InEscape acc, ts)
      else if plain_char c then Some (InString (c # acc), ts)
      else None)"
| "lex_step (InEscape acc) ts c =
     (case map_of escapes c of
        Some d \<Rightarrow> Some (InString (d # acc), ts)
      | None \<Rightarrow> None)"
| "lex_step (InNumber acc) ts c =
     (if number_char c then Some (InNumber (c # acc), ts)
      else idle_step (TNumber (rev acc) # ts) c)"
| "lex_step (InWord acc) ts c =
     (if word_char c then Some (InWord (c # acc), ts)
      else idle_step (TWord (rev acc) # ts) c)"

fun lex_end :: "lex_mode \<Rightarrow> token list \<Rightarrow> token list option" where
  "lex_end Idle ts = Some (rev ts)"
| "lex_end (InString acc) ts = None"
| "lex_end (InEscape acc) ts = None"
| "lex_end (InNumber acc) ts = Some (rev (TNumber (rev acc) # ts))"
| "lex_end (InWord acc) ts = Some (rev (TWord (rev acc) # ts))"

fun lex_run :: "lex_mode \<Rightarrow> token list \<Rightarrow> string \<Rightarrow> token list option" where
  "lex_run m ts [] = lex_end m ts"
| "lex_run m ts (c # cs) =
     (case lex_step m ts c of
        None \<Rightarrow> None
      | Some (m', ts') \<Rightarrow> lex_run m' ts' cs)"

subsection \<open>Numbers\<close>

text \<open>
  A number token \<open>[-] int [. digits] [(e|E) [+|-] digits]\<close>.  Without fraction and
  exponent it is an \<open>int\<close> when it fits 64 bits (signed or unsigned) and a float
  otherwise; with either it is a float.
\<close>

definition all_digits :: "string \<Rightarrow> bool" where
  "all_digits ds = (ds \<noteq> [] \<and> list_all is_digit ds)"

definition exponent_value :: "string \<Rightarrow> int option" where
  "exponent_value s =
     (case s of
        [] \<Rightarrow> Some 0
      | c # r \<Rightarrow>
          if c = CHR ''e'' \<or> c = CHR ''E'' then
            (case r of
               [] \<Rightarrow> None
             | d # r' \<Rightarrow>
                 if d = CHR ''-'' then
                   (if all_digits r' then Some (- int_of_digits r') else None)
                 else if d = CHR ''+'' then
                   (if all_digits r' then Some (int_of_digits r') else None)
                 else if all_digits r then Some (int_of_digits r) else None)
          else None)"

definition pow10 :: "int \<Rightarrow> rat" where
  "pow10 e = (if e < 0 then 1 / 10 ^ nat (- e) else 10 ^ nat e)"

definition unsigned_number :: "string \<Rightarrow> rat json option" where
  "unsigned_number s =
     (let ip = takeWhile is_digit s; r1 = dropWhile is_digit s
      in if ip = [] \<or> (length ip > 1 \<and> hd ip = CHR ''0'') then None
         else if r1 = [] then
           Some (if int_of_digits ip < 2 ^ 64 then JInt (int_of_digits ip)
                 else JFloat (of_int (int_of_digits ip)))
         else
           (let has_frac = (hd r1 = CHR ''.'');
                fp = (if has_frac then takeWhile is_digit (tl r1) else []);
                r2 = (if has_frac then dropWhile is_digit (tl r1) else r1)
            in if has_frac \<and> fp = [] then None
               else case exponent_value r2 of
                  None \<Rightarrow> None
                | Some e \<Rightarrow>
                    Some (JFloat (of_int (int_of_digits (ip @ fp))
                                  * pow10 (e - int (length fp))))))"

definition number_value :: "string \<Rightarrow> rat json option" where
  "number_value s =
     (case s of
        [] \<Rightarrow> None
      | c # r \<Rightarrow>
          if c = CHR ''-'' then
            (case unsigned_number r of
               Some (JInt i) \<Rightarrow> Some (if i \<le> 2 ^ 63 then JInt (- i) else JFloat (- of_int i))
             | Some (JFloat x) \<Rightarrow> Some (JFloat (- x))
             | _ \<Rightarrow> None)
          else unsigned_number s)"

subsection \<open>The parser\<close>

text \<open>
  The parser reads one token at a time and keeps a stack of the arrays and objects that
  are open: \<open>FList\<close> with the elements so far, \<open>FDict\<close> with the pairs so far, and
  \<open>FKey\<close> for an object whose next value belongs to the key just read.  The phase says
  what may come next.
\<close>

datatype frame =
    FList "rat json list"
  | FDict "(string \<times> rat json) list"
  | FKey "(string \<times> rat json) list" string

datatype phase =
    PValue      \<comment> \<open>a value must follow\<close>
  | PFirst      \<comment> \<open>after \<open>[\<close>: a value or \<open>]\<close>\<close>
  | PAfter      \<comment> \<open>after a value: a comma, the closing bracket, or the end\<close>
  | PKeyFirst   \<comment> \<open>after \<open>{\<close>: a key or \<open>}\<close>\<close>
  | PKey        \<comment> \<open>after a comma in an object: a key\<close>
  | PColon      \<comment> \<open>after a key: the colon\<close>

type_synonym parse_state = "phase \<times> frame list \<times> rat json option"

text \<open>A complete value goes to the innermost open container, or is the result.\<close>

fun deliver :: "rat json \<Rightarrow> frame list \<Rightarrow> parse_state option" where
  "deliver v [] = Some (PAfter, [], Some v)"
| "deliver v (FList vs # st) = Some (PAfter, FList (vs @ [v]) # st, None)"
| "deliver v (FKey kvs k # st) = Some (PAfter, FDict (kvs @ [(k, v)]) # st, None)"
| "deliver v (FDict kvs # st) = None"

definition word_value :: "string \<Rightarrow> rat json option" where
  "word_value w =
     (if w = ''true'' then Some (JBool True)
      else if w = ''false'' then Some (JBool False)
      else if w = ''null'' then Some JNull
      else None)"

definition wants_value :: "phase \<Rightarrow> bool" where
  "wants_value p = (p = PValue \<or> p = PFirst)"

fun parse_step :: "parse_state \<Rightarrow> token \<Rightarrow> parse_state option" where
  "parse_step (p, st, res) (TString s) =
     (if wants_value p then deliver (JStr s) st
      else if p = PKeyFirst \<or> p = PKey then
        (case st of
           FDict kvs # st' \<Rightarrow> Some (PColon, FKey kvs s # st', None)
         | _ \<Rightarrow> None)
      else None)"
| "parse_step (p, st, res) (TNumber s) =
     (if wants_value p then
        (case number_value s of None \<Rightarrow> None | Some v \<Rightarrow> deliver v st)
      else None)"
| "parse_step (p, st, res) (TWord w) =
     (if wants_value p then
        (case word_value w of None \<Rightarrow> None | Some v \<Rightarrow> deliver v st)
      else None)"
| "parse_step (p, st, res) TLBracket =
     (if wants_value p then Some (PFirst, FList [] # st, None) else None)"
| "parse_step (p, st, res) TLBrace =
     (if wants_value p then Some (PKeyFirst, FDict [] # st, None) else None)"
| "parse_step (p, st, res) TRBracket =
     (if p = PFirst \<or> p = PAfter then
        (case st of
           FList vs # st' \<Rightarrow> deliver (JList vs) st'
         | _ \<Rightarrow> None)
      else None)"
| "parse_step (p, st, res) TRBrace =
     (if p = PKeyFirst \<or> p = PAfter then
        (case st of
           FDict kvs # st' \<Rightarrow> deliver (JDict kvs) st'
         | _ \<Rightarrow> None)
      else None)"
| "parse_step (p, st, res) TComma =
     (if p = PAfter then
        (case st of
           FList vs # st' \<Rightarrow> Some (PValue, st, None)
         | FDict kvs # st' \<Rightarrow> Some (PKey, st, None)
         | _ \<Rightarrow> None)
      else None)"
| "parse_step (p, st, res) TColon =
     (if p = PColon then Some (PValue, st, None) else None)"

fun parse_run :: "parse_state \<Rightarrow> token list \<Rightarrow> rat json option" where
  "parse_run (p, st, res) [] = (if p = PAfter \<and> st = [] then res else None)"
| "parse_run ps (t # ts) =
     (case parse_step ps t of
        None \<Rightarrow> None
      | Some ps' \<Rightarrow> parse_run ps' ts)"

definition json_loads :: "string \<Rightarrow> py_error + rat json" where
  "json_loads s =
     (case lex_run Idle [] s of
        None \<Rightarrow> Inl JSONDecodeError
      | Some ts \<Rightarrow>
          (case parse_run (PValue, [], None) ts of
             None \<Rightarrow> Inl JSONDecodeError
           | Some v \<Rightarrow> Inr v))"

subsection \<open>The runtime\<close>

text \<open>
  \<open>float(s)\<close> for the strings in JSON number syntax; Python's \<open>float\<close> accepts more
  (surrounding whitespace, a sign \<open>+\<close>, \<open>inf\<close>, \<open>nan\<close>), which this runtime refuses.
\<close>

definition exact_float_of_str :: "string \<Rightarrow> py_error + rat" where
  "exact_float_of_str s =
     (case number_value s of
        Some (JInt i) \<Rightarrow> Inr (of_int i)
      | Some (JFloat x) \<Rightarrow> Inr x
      | _ \<Rightarrow> Inl ValueError)"

text \<open>Integers hash to themselves, strings to the sum of their bytes.\<close>

fun exact_hash :: "rat pykey \<Rightarrow> int" where
  "exact_hash KNone = 0"
| "exact_hash (KNum i) = i"
| "exact_hash (KFloat x) = \<lfloor>x\<rfloor>"
| "exact_hash (KStr s) = sum_list (map of_char s)"

text \<open>Integers print as Python prints small integral floats, the rest as a quotient.\<close>

definition exact_repr :: "rat \<Rightarrow> string" where
  "exact_repr x =
     (case quotient_of x of
        (n, d) \<Rightarrow> if d = 1 then str_int n @ ''.0'' else str_int n @ ''/'' @ str_int d)"

definition exact_runtime :: "rat runtime" where
  "exact_runtime =
     \<lparr>py_hash = exact_hash,
      orjson_loads = json_loads,
      float_of_int = (\<lambda>i. Inr (of_int i)),
      float_of_str = exact_float_of_str,
      float_eq_int = (\<lambda>x. if x = of_int \<lfloor>x\<rfloor> then Some \<lfloor>x\<rfloor> else None),
      float_add = (\<lambda>x y. x + y),
      float_div_int = (\<lambda>x n. x / of_int n),
      c_float = (\<lambda>x. x),
      float_zero = 0,
      float_repr = exact_repr\<rparr>"

section \<open>Concrete connections\<close>

text \<open>The requests on which the theorems below are instantiated.\<close>

definition event_head :: "string \<Rightarrow> string" where
  "event_head n =
     ''POST /event HTTP/1.1'' @ CRLF @ ''Content-Length: '' @ n @ CRLF @ CRLF"

definition req_no_terminator :: string where
  "req_no_terminator = ''POST /event HTTP/1.1'' @ CRLF @ ''Content-Length: 2'' @ CRLF"

definition req_blank_in_body :: string where
  "req_blank_in_body =
     event_head ''28'' @ ''{\"userId\":\"a\",'' @ CRLF @ CRLF @ ''\"value\":1}''"

definition req_unknown :: string where
  "req_unknown = ''GET /health HTTP/1.1'' @ CRLF @ CRLF"

definition req_stats :: string where
  "req_stats = ''GET /stats HTTP/1.1'' @ CRLF @ CRLF"

definition body_alice_10 :: string where
  "body_alice_10 = ''{\"userId\":\"alice\",\"value\":10}''"

definition body_alice_null :: string where
  "body_alice_null = ''{\"userId\":\"alice\",\"value\":null}''"


definition req_alice_10 :: string where
  "req_alice_10 = event_head ''29'' @ body_alice_10"

definition req_alice_null :: string where
  "req_alice_null = event_head ''31'' @ body_alice_null"


text \<open>The head of an event and the first 13 bytes of its body; the connection then ends.\<close>

definition req_truncated :: string where
  "req_truncated = event_head ''29'' @ take 13 body_alice_10"


text \<open>
  A connection that delivers the event of \<open>req_alice_10\<close> in three pieces: the head with
  the first 13 bytes of the body, then 8 bytes, then the last 8 bytes.
\<close>

definition conn_three_reads :: reader where
  "conn_three_reads =
     [Data req_truncated, Data (take 8 (drop 13 body_alice_10)), Data (drop 21 body_alice_10)]"

definition conn_two_reads :: reader where
  "conn_two_reads = [Data req_truncated, Data (drop 13 body_alice_10)]"

section \<open>The invariant of the shard store\<close>

text \<open>
  The store has \<open>NUM_SHARDS\<close> shards, and every member of shard \<open>i\<close> hashes to \<open>i\<close>.
\<close>

definition shards_placed :: "'f runtime \<Rightarrow> 'f pykey fset list \<Rightarrow> bool" where
  "shards_placed rt sh \<longleftrightarrow>
     length sh = NUM_SHARDS
     \<and> (\<forall>i < NUM_SHARDS. \<forall>k. k |\<in>| sh ! i \<longrightarrow> nat (py_hash rt k mod int NUM_SHARDS) = i)"

section \<open>The event of a connection\<close>

text \<open>
  The identifier and the value that lines 52 to 81 take from a connection, when the
  request is an event and none of these lines raises.  Nothing in them reads the
  aggregate state.
\<close>

definition decode_event :: "'f runtime \<Rightarrow> reader \<Rightarrow> ('f pykey \<times> 'f) option" where
  "decode_event rt rd =
     (case reader_read 2048 rd of
        (Inl e, rd') \<Rightarrow> None
      | (Inr data_bin, rd') \<Rightarrow>
          if bytes_in ''GET /stats '' data_bin \<or> \<not> bytes_in ''POST /event '' data_bin then None
          else
            (case receive_body data_bin rd' of
               Inl e \<Rightarrow> None
             | Inr body_sofar \<Rightarrow>
                 (case orjson_loads rt body_sofar of
                    Inr (JDict kvs) \<Rightarrow>
                      (case py_key rt (dict_get kvs ''userId'' JNull) of
                         Inl e \<Rightarrow> None
                       | Inr k \<Rightarrow>
                           (case py_float rt (dict_get kvs ''value'' (JInt 0)) of
                              Inl e \<Rightarrow> None
                            | Inr x \<Rightarrow> Some (k, x)))
                  | _ \<Rightarrow> None)))"

section \<open>Handlers as coroutines\<close>

text \<open>
  The event loop runs one handler at a time and passes from one handler to another only
  where the running one awaits.  \<open>handle\<close> awaits the first read (line 52), the further
  read (line 77) and, once the state has been updated and the response chosen, the
  writer (lines 101 to 105).  The lock of \<open>add_unique_user\<close> is free whenever a handler
  reaches it, because no handler awaits while it holds one, and acquiring a free lock
  does not suspend.  So a handler runs in at most two segments that touch the state: from
  the return of the first read to the further read or to the end, and from the return
  of the further read to the end.  A task is a handler between two segments.
\<close>

datatype task = Start reader | Reading string int reader | Done string

text \<open>Lines 79 to 92: the event is applied, and the inner \<open>except\<close> chooses \<open>HTTP_500\<close>.\<close>

definition finish :: "'f runtime \<Rightarrow> 'f aggregate \<Rightarrow> string \<Rightarrow> task \<times> 'f aggregate" where
  "finish rt st body_sofar =
     (case apply_event rt st body_sofar of
        (Inl e, st') \<Rightarrow> (Done HTTP_500, st')
      | (Inr response, st') \<Rightarrow> (Done response, st'))"

text \<open>
  The segment that the return of the first read starts: lines 52 to 76, and lines 79 to
  92 as well when no byte remains to be read.
\<close>

definition after_first_read ::
  "'f runtime \<Rightarrow> 'f aggregate \<Rightarrow> reader \<Rightarrow> task \<times> 'f aggregate" where
  "after_first_read rt st rd =
     (case reader_read 2048 rd of
        (Inl e, rd') \<Rightarrow> (Done HTTP_500, st)
      | (Inr data_bin, rd') \<Rightarrow>
          if bytes_in ''GET /stats '' data_bin then
            (case stats_response rt st of
               Inl e \<Rightarrow> (Done HTTP_500, st)
             | Inr response \<Rightarrow> (Done response, st))
          else if bytes_in ''POST /event '' data_bin then
            (case split_request data_bin of
               Inl e \<Rightarrow> (Done HTTP_500, st)
             | Inr (body_sofar, remaining) \<Rightarrow>
                 if remaining > 0 then (Reading body_sofar remaining rd', st)
                 else finish rt st body_sofar)
          else (Done HTTP_404, st))"

text \<open>The segment that the return of the further read starts: lines 77 to 92.\<close>

definition after_further_read ::
  "'f runtime \<Rightarrow> 'f aggregate \<Rightarrow> string \<Rightarrow> int \<Rightarrow> reader \<Rightarrow> task \<times> 'f aggregate" where
  "after_further_read rt st body_sofar remaining rd =
     (case fst (reader_read (nat remaining) rd) of
        Inl e \<Rightarrow> (Done HTTP_500, st)
      | Inr extra \<Rightarrow> finish rt st (body_sofar @ extra))"

text \<open>
  The event loop resumes task \<open>i\<close>, which runs its next segment on the state as it is
  now.  Resuming a task that has finished, or one that does not exist, changes nothing.
\<close>

definition resume ::
  "'f runtime \<Rightarrow> nat \<Rightarrow> 'f aggregate \<times> task list \<Rightarrow> 'f aggregate \<times> task list" where
  "resume rt i c =
     (case c of
        (st, ts) \<Rightarrow>
          if i < length ts then
            (case ts ! i of
               Start rd \<Rightarrow>
                 (case after_first_read rt st rd of (t, st') \<Rightarrow> (st', ts[i := t]))
             | Reading body_sofar remaining rd \<Rightarrow>
                 (case after_further_read rt st body_sofar remaining rd of
                    (t, st') \<Rightarrow> (st', ts[i := t]))
             | Done response \<Rightarrow> (st, ts))
          else (st, ts))"

text \<open>An interleaving is the list of the tasks resumed, in order.\<close>

fun run ::
  "'f runtime \<Rightarrow> 'f aggregate \<times> task list \<Rightarrow> nat list \<Rightarrow> 'f aggregate \<times> task list" where
  "run rt c [] = c"
| "run rt c (i # sched) = run rt (resume rt i c) sched"

fun is_done :: "task \<Rightarrow> bool" where
  "is_done (Done response) = True"
| "is_done t = False"

definition all_done :: "task list \<Rightarrow> bool" where
  "all_done ts = list_all is_done ts"

text \<open>
  The event that lines 79 to 81 take from a complete body, and the event that a task
  has still to apply.
\<close>

definition decode_body :: "'f runtime \<Rightarrow> string \<Rightarrow> ('f pykey \<times> 'f) option" where
  "decode_body rt body_sofar =
     (case orjson_loads rt body_sofar of
        Inr (JDict kvs) \<Rightarrow>
          (case py_key rt (dict_get kvs ''userId'' JNull) of
             Inl e \<Rightarrow> None
           | Inr k \<Rightarrow>
               (case py_float rt (dict_get kvs ''value'' (JInt 0)) of
                  Inl e \<Rightarrow> None
                | Inr x \<Rightarrow> Some (k, x)))
      | _ \<Rightarrow> None)"

fun pending :: "'f runtime \<Rightarrow> task \<Rightarrow> ('f pykey \<times> 'f) option" where
  "pending rt (Start rd) = decode_event rt rd"
| "pending rt (Reading body_sofar remaining rd) =
     (case fst (reader_read (nat remaining) rd) of
        Inl e \<Rightarrow> None
      | Inr extra \<Rightarrow> decode_body rt (body_sofar @ extra))"
| "pending rt (Done response) = None"

text \<open>The events applied along an interleaving, in the order in which they are applied.\<close>

definition completes ::
  "'f runtime \<Rightarrow> nat \<Rightarrow> 'f aggregate \<times> task list \<Rightarrow> ('f pykey \<times> 'f) option" where
  "completes rt i c =
     (if i < length (snd c) \<and> is_done (snd (resume rt i c) ! i) then pending rt (snd c ! i)
      else None)"

fun applied ::
  "'f runtime \<Rightarrow> 'f aggregate \<times> task list \<Rightarrow> nat list \<Rightarrow> ('f pykey \<times> 'f) list" where
  "applied rt c [] = []"
| "applied rt c (i # sched) =
     (case completes rt i c of
        None \<Rightarrow> applied rt (resume rt i c) sched
      | Some e \<Rightarrow> e # applied rt (resume rt i c) sched)"

text \<open>
  What applying an event does to the two counters: lines 81 and 82.  No event leaves
  them as they are.
\<close>

fun counted ::
  "'f runtime \<Rightarrow> ('f pykey \<times> 'f) option \<Rightarrow> 'f aggregate \<Rightarrow> 'f aggregate \<Rightarrow> bool" where
  "counted rt None st st' \<longleftrightarrow> req_total st' = req_total st \<and> req_sum st' = req_sum st"
| "counted rt (Some e) st st' \<longleftrightarrow>
     req_total st' = req_total st + 1
     \<and> req_sum st' = c_float rt (float_add rt (req_sum st) (snd e))"

section \<open>Properties of the decoder\<close>

lemma length_split_scan: "length (split_scan sep k cur s) = Suc (count_scan sep k s)"
  by (induction sep k cur s rule: split_scan.induct) simp_all

lemma length_bytes_split: "length (bytes_split s sep) = Suc (bytes_count s sep)"
  by (simp add: bytes_split_def bytes_count_def length_split_scan)

lemma split_request_no_single_blank_line:
  assumes "bytes_count data_bin BLANK_LINE \<noteq> 1"
  shows "split_request data_bin = Inl ValueError"
proof -
  have "length (bytes_split data_bin BLANK_LINE) \<noteq> 2"
    using assms by (simp add: length_bytes_split)
  then show ?thesis
    by (auto simp: split_request_def split: list.splits)
qed

lemma split_request_Inr_count:
  "split_request data_bin = Inr r \<Longrightarrow> bytes_count data_bin BLANK_LINE = 1"
  using split_request_no_single_blank_line [of data_bin] by fastforce

lemma handle_unknown:
  assumes "reader_read 2048 rd = (Inr data_bin, rd')"
    and "\<not> bytes_in ''GET /stats '' data_bin" and "\<not> bytes_in ''POST /event '' data_bin"
  shows "handle rt st rd = (HTTP_404, st)"
  using assms by (simp add: handle_def handle_try_def)

lemma handle_event:
  assumes "reader_read 2048 rd = (Inr data_bin, rd')"
    and "\<not> bytes_in ''GET /stats '' data_bin" and "bytes_in ''POST /event '' data_bin"
  shows "handle rt st rd =
     (case event_try rt st data_bin rd' of
        (Inl e, st') \<Rightarrow> (HTTP_500, st')
      | (Inr response, st') \<Rightarrow> (response, st'))"
  using assms by (simp add: handle_def handle_try_def split: prod.splits sum.splits)

lemmas bytes_defs = CRLF_def CR_def LF_def BLANK_LINE_def event_head_def

text \<open>
  Claim C10.  An event request is processed only when the buffer of the initial read
  holds the blank-line sequence exactly once, counted as \<open>bytes.count\<close> and
  \<open>bytes.split\<close> count it (from left to right, without overlap): when the count is not
  1, because the end of the headers has not arrived or because the body read so far
  holds a further blank line, the response is \<open>HTTP_500\<close> and the state is unchanged.
\<close>

theorem event_needs_one_blank_line:
  assumes "reader_read 2048 rd = (Inr data_bin, rd')"
    and "\<not> bytes_in ''GET /stats '' data_bin" and "bytes_in ''POST /event '' data_bin"
    and "bytes_count data_bin BLANK_LINE \<noteq> 1"
  shows "handle rt st rd = (HTTP_500, st)"
  using assms(4)
  by (simp add: handle_event [OF assms(1-3)] event_try_def receive_body_def
      split_request_no_single_blank_line)

theorem event_needs_one_blank_line_witness:
  "bytes_count req_no_terminator BLANK_LINE = 0
   \<and> handle exact_runtime (initial_state exact_runtime) [Data req_no_terminator]
       = (HTTP_500, initial_state exact_runtime)
   \<and> bytes_count req_blank_in_body BLANK_LINE = 2
   \<and> handle exact_runtime (initial_state exact_runtime) [Data req_blank_in_body]
       = (HTTP_500, initial_state exact_runtime)"
proof -
  have r1: "reader_read 2048 [Data req_no_terminator] = (Inr req_no_terminator, [])"
    by (simp add: req_no_terminator_def bytes_defs)
  have g1: "\<not> bytes_in ''GET /stats '' req_no_terminator"
    by (simp add: req_no_terminator_def bytes_defs)
  have p1: "bytes_in ''POST /event '' req_no_terminator"
    by (simp add: req_no_terminator_def bytes_defs)
  have c1: "bytes_count req_no_terminator BLANK_LINE = 0"
    by (simp add: req_no_terminator_def bytes_count_def bytes_defs)
  have r2: "reader_read 2048 [Data req_blank_in_body] = (Inr req_blank_in_body, [])"
    by (simp add: req_blank_in_body_def bytes_defs)
  have g2: "\<not> bytes_in ''GET /stats '' req_blank_in_body"
    by (simp add: req_blank_in_body_def bytes_defs)
  have p2: "bytes_in ''POST /event '' req_blank_in_body"
    by (simp add: req_blank_in_body_def bytes_defs)
  have c2: "bytes_count req_blank_in_body BLANK_LINE = 2"
    by (simp add: req_blank_in_body_def bytes_count_def bytes_defs)
  show ?thesis
    using event_needs_one_blank_line [OF r1 g1 p1, of exact_runtime "initial_state exact_runtime"]
      event_needs_one_blank_line [OF r2 g2 p2, of exact_runtime "initial_state exact_runtime"]
      c1 c2
    by simp
qed

lemma shard_index_bound: "shard_index rt u = Inr i \<Longrightarrow> i < NUM_SHARDS"
  by (auto simp: shard_index_def NUM_SHARDS_def split: sum.splits)

lemma add_unique_user_unhashable:
  "py_key rt u = Inl e \<Longrightarrow> add_unique_user rt u sh = Inl e"
  by (simp add: add_unique_user_def shard_index_def)

lemma add_unique_user_hashable:
  assumes "py_key rt u = Inr k" and "length sh = NUM_SHARDS"
  shows "add_unique_user rt u sh =
           Inr (sh[nat (py_hash rt k mod int NUM_SHARDS) :=
                     finsert k (sh ! nat (py_hash rt k mod int NUM_SHARDS))])"
proof -
  have "nat (py_hash rt k mod int NUM_SHARDS) < NUM_SHARDS"
    by (simp add: NUM_SHARDS_def)
  then show ?thesis
    using assms by (simp add: add_unique_user_def shard_index_def)
qed

lemma apply_event_loads_fails:
  "orjson_loads rt b = Inl e \<Longrightarrow> apply_event rt st b = (Inl e, st)"
  by (simp add: apply_event_def)

lemma apply_event_not_dict:
  "orjson_loads rt b = Inr v \<Longrightarrow> \<forall>kvs. v \<noteq> JDict kvs \<Longrightarrow>
   apply_event rt st b = (Inl AttributeError, st)"
  by (cases v) (simp_all add: apply_event_def)

lemma apply_event_user_fails:
  "orjson_loads rt b = Inr (JDict kvs) \<Longrightarrow>
   add_unique_user rt (dict_get kvs ''userId'' JNull) (shards st) = Inl e \<Longrightarrow>
   apply_event rt st b = (Inl e, st)"
  by (simp add: apply_event_def)

lemma apply_event_value_fails:
  "orjson_loads rt b = Inr (JDict kvs) \<Longrightarrow>
   add_unique_user rt (dict_get kvs ''userId'' JNull) (shards st) = Inr sh \<Longrightarrow>
   py_float rt (dict_get kvs ''value'' (JInt 0)) = Inl e \<Longrightarrow>
   apply_event rt st b = (Inl e, st\<lparr>shards := sh\<rparr>)"
  by (simp add: apply_event_def)

lemma apply_event_applied:
  assumes "orjson_loads rt b = Inr (JDict kvs)"
    and "add_unique_user rt (dict_get kvs ''userId'' JNull) (shards st) = Inr sh"
    and "py_float rt (dict_get kvs ''value'' (JInt 0)) = Inr x"
  shows "apply_event rt st b =
     (if req_total st + 1 = 0 then Inl ZeroDivisionError
      else Inr (http_200 (body_response rt (sint (req_total st + 1)) (unique_count sh)
                  (c_float rt (float_add rt (req_sum st) x))
                  (float_div_int rt (c_float rt (float_add rt (req_sum st) x))
                     (sint (req_total st + 1))))),
      st\<lparr>shards := sh, req_sum := c_float rt (float_add rt (req_sum st) x),
         req_total := req_total st + 1\<rparr>)"
  using assms by (simp add: apply_event_def py_truediv_def signed_eq_0_iff)


lemma handle_try_raises:
  "fst (handle_try rt st rd) = Inl e \<Longrightarrow> fst (handle rt st rd) = HTTP_500"
  by (cases "handle_try rt st rd") (simp add: handle_def)

lemma handle_event_raises:
  assumes "reader_read 2048 rd = (Inr data_bin, rd')"
    and "\<not> bytes_in ''GET /stats '' data_bin" and "bytes_in ''POST /event '' data_bin"
    and "fst (event_try rt st data_bin rd') = Inl e"
  shows "handle rt st rd = (HTTP_500, snd (event_try rt st data_bin rd'))"
  using assms(4) by (cases "event_try rt st data_bin rd'") (simp add: handle_event [OF assms(1-3)])

lemma str_nat_9: "str_nat 9 = ''9''"
  by (simp add: str_nat.simps digit_char_def)

lemma str_nat_21: "str_nat 21 = ''21''"
  by (simp add: str_nat.simps digit_char_def)

text \<open>
  Claim C9.  A buffer that holds neither route marker is answered with \<open>HTTP_404\<close>,
  and the state is unchanged; an exception that leaves the outer \<open>try\<close>, or the inner
  one of an event, is answered with \<open>HTTP_500\<close>.  Both constants are a status line, a
  \<open>Connection\<close> header, a \<open>Content-Length\<close> that is the length of the body, a blank
  line and the body: the 9 bytes \<open>Not Found\<close>, the 21 bytes \<open>Internal Server Error\<close>.
\<close>

theorem fixed_error_responses:
  "(reader_read 2048 rd = (Inr data_bin, rd') \<and> \<not> bytes_in ''GET /stats '' data_bin
      \<and> \<not> bytes_in ''POST /event '' data_bin
      \<longrightarrow> handle rt st rd = (HTTP_404, st))
   \<and> (fst (handle_try rt st rd) = Inl e \<longrightarrow> fst (handle rt st rd) = HTTP_500)
   \<and> (reader_read 2048 rd = (Inr data_bin, rd') \<and> \<not> bytes_in ''GET /stats '' data_bin
      \<and> bytes_in ''POST /event '' data_bin \<and> fst (event_try rt st data_bin rd') = Inl e
      \<longrightarrow> fst (handle rt st rd) = HTTP_500)
   \<and> HTTP_404 = ''HTTP/1.1 404 Not Found'' @ CRLF @ ''Connection: close'' @ CRLF
        @ ''Content-Length: '' @ str_nat (length ''Not Found'') @ BLANK_LINE @ ''Not Found''
   \<and> length ''Not Found'' = 9
   \<and> HTTP_500 = ''HTTP/1.1 500 Internal Server Error'' @ CRLF @ ''Connection: close'' @ CRLF
        @ ''Content-Length: '' @ str_nat (length ''Internal Server Error'') @ BLANK_LINE
        @ ''Internal Server Error''
   \<and> length ''Internal Server Error'' = 21"
proof (intro conjI impI)
  have l9: "length ''Not Found'' = 9" and l21: "length ''Internal Server Error'' = 21"
    by simp_all
  show "HTTP_404 = ''HTTP/1.1 404 Not Found'' @ CRLF @ ''Connection: close'' @ CRLF
        @ ''Content-Length: '' @ str_nat (length ''Not Found'') @ BLANK_LINE @ ''Not Found''"
    unfolding l9 str_nat_9 by (simp add: HTTP_404_def BLANK_LINE_def)
  show "HTTP_500 = ''HTTP/1.1 500 Internal Server Error'' @ CRLF @ ''Connection: close'' @ CRLF
        @ ''Content-Length: '' @ str_nat (length ''Internal Server Error'') @ BLANK_LINE
        @ ''Internal Server Error''"
    unfolding l21 str_nat_21 by (simp add: HTTP_500_def BLANK_LINE_def)
qed (auto simp: handle_unknown handle_try_raises handle_event_raises)

theorem fixed_error_responses_witness:
  "handle exact_runtime (initial_state exact_runtime) [Data req_unknown]
     = (HTTP_404, initial_state exact_runtime)
   \<and> fst (handle exact_runtime (initial_state exact_runtime) [ReadError]) = HTTP_500
   \<and> fst (handle exact_runtime (initial_state exact_runtime) [Data req_no_terminator]) = HTTP_500"
proof -
  let ?S = "initial_state exact_runtime"
  have r1: "reader_read 2048 [Data req_unknown] = (Inr req_unknown, [])"
    and g1: "\<not> bytes_in ''GET /stats '' req_unknown"
    and p1: "\<not> bytes_in ''POST /event '' req_unknown"
    by (simp_all add: req_unknown_def bytes_defs)
  have t2: "fst (handle_try exact_runtime ?S [ReadError]) = Inl ConnectionError"
    by (simp add: handle_try_def)
  have r3: "reader_read 2048 [Data req_no_terminator] = (Inr req_no_terminator, [])"
    and g3: "\<not> bytes_in ''GET /stats '' req_no_terminator"
    and p3: "bytes_in ''POST /event '' req_no_terminator"
    by (simp_all add: req_no_terminator_def bytes_defs)
  have "bytes_count req_no_terminator BLANK_LINE \<noteq> 1"
    by (simp add: req_no_terminator_def bytes_count_def bytes_defs)
  then have e3: "fst (event_try exact_runtime ?S req_no_terminator []) = Inl ValueError"
    by (simp add: event_try_def receive_body_def split_request_no_single_blank_line)
  show ?thesis
    using fixed_error_responses [of "[Data req_unknown]" req_unknown "[]" exact_runtime ?S
        ConnectionError]
      fixed_error_responses [of "[ReadError]" req_unknown "[]" exact_runtime ?S ConnectionError]
      fixed_error_responses [of "[Data req_no_terminator]" req_no_terminator "[]" exact_runtime
        ?S ValueError]
      r1 g1 p1 t2 r3 g3 p3 e3
    by simp
qed

lemmas regex_defs = re_len_match_def is_space_def is_digit_def ascii_lower_def
  int_of_digits_def digit_value_def

lemmas json_defs = json_loads_def idle_step_def json_ws_def number_char_def word_char_def
  plain_char_def punctuation_def escapes_def word_value_def wants_value_def number_value_def
  unsigned_number_def exponent_value_def all_digits_def is_digit_def int_of_digits_def
  digit_value_def pow10_def

lemmas receive_defs = receive_body_def split_request_def read_remaining_def bytes_split_def

text \<open>
  The failures of an event that come before line 80 leave the state as it was: the split
  of the buffer, the further read, the JSON decoding, a decoded value that is not an
  object, or a \<open>userId\<close> that cannot be hashed.  When it is the \<open>value\<close> that cannot be
  converted, the response is \<open>HTTP_500\<close> as well, and \<open>req_total\<close> and \<open>req_sum\<close> are
  unchanged.
\<close>

lemma failed_event_keeps_state:
  assumes "reader_read 2048 rd = (Inr data_bin, rd')"
    and "\<not> bytes_in ''GET /stats '' data_bin" and "bytes_in ''POST /event '' data_bin"
  shows "((receive_body data_bin rd' = Inl e
           \<or> (\<exists>body. receive_body data_bin rd' = Inr body \<and>
                 (orjson_loads rt body = Inl e
                  \<or> (\<exists>v. orjson_loads rt body = Inr v \<and> (\<forall>kvs. v \<noteq> JDict kvs))
                  \<or> (\<exists>kvs. orjson_loads rt body = Inr (JDict kvs)
                        \<and> py_key rt (dict_get kvs ''userId'' JNull) = Inl e))))
          \<longrightarrow> handle rt st rd = (HTTP_500, st))
       \<and> ((\<exists>body kvs. receive_body data_bin rd' = Inr body
              \<and> orjson_loads rt body = Inr (JDict kvs)
              \<and> py_float rt (dict_get kvs ''value'' (JInt 0)) = Inl e)
          \<longrightarrow> fst (handle rt st rd) = HTTP_500
              \<and> req_total (snd (handle rt st rd)) = req_total st
              \<and> req_sum (snd (handle rt st rd)) = req_sum st)"
proof (rule conjI; rule impI)
  note h = handle_event [OF assms, of rt st]
  assume "receive_body data_bin rd' = Inl e
           \<or> (\<exists>body. receive_body data_bin rd' = Inr body \<and>
                 (orjson_loads rt body = Inl e
                  \<or> (\<exists>v. orjson_loads rt body = Inr v \<and> (\<forall>kvs. v \<noteq> JDict kvs))
                  \<or> (\<exists>kvs. orjson_loads rt body = Inr (JDict kvs)
                        \<and> py_key rt (dict_get kvs ''userId'' JNull) = Inl e)))"
  then show "handle rt st rd = (HTTP_500, st)"
    by (auto simp: h event_try_def apply_event_loads_fails apply_event_not_dict
        apply_event_user_fails add_unique_user_unhashable)
next
  note h = handle_event [OF assms, of rt st]
  assume "\<exists>body kvs. receive_body data_bin rd' = Inr body
              \<and> orjson_loads rt body = Inr (JDict kvs)
              \<and> py_float rt (dict_get kvs ''value'' (JInt 0)) = Inl e"
  then obtain body kvs where b: "receive_body data_bin rd' = Inr body"
    and l: "orjson_loads rt body = Inr (JDict kvs)"
    and v: "py_float rt (dict_get kvs ''value'' (JInt 0)) = Inl e"
    by blast
  show "fst (handle rt st rd) = HTTP_500
              \<and> req_total (snd (handle rt st rd)) = req_total st
              \<and> req_sum (snd (handle rt st rd)) = req_sum st"
  proof (cases "add_unique_user rt (dict_get kvs ''userId'' JNull) (shards st)")
    case (Inl e')
    then show ?thesis
      by (simp add: h event_try_def b apply_event_user_fails [OF l])
  next
    case (Inr sh)
    then show ?thesis
      by (simp add: h event_try_def b apply_event_value_fails [OF l _ v])
  qed
qed

lemma read_truncated: "reader_read 2048 [Data req_truncated] = (Inr req_truncated, [])"
  by (simp add: req_truncated_def body_alice_10_def bytes_defs)

lemma routes_truncated:
  "\<not> bytes_in ''GET /stats '' req_truncated" "bytes_in ''POST /event '' req_truncated"
  by (simp_all add: req_truncated_def body_alice_10_def bytes_defs)

lemma receive_truncated: "receive_body req_truncated [] = Inr (take 13 body_alice_10)"
  by (simp add: req_truncated_def body_alice_10_def bytes_defs receive_defs regex_defs)

lemma loads_truncated: "json_loads (take 13 body_alice_10) = Inl JSONDecodeError"
  by (simp add: body_alice_10_def json_defs)

lemma read_alice_null: "reader_read 2048 [Data req_alice_null] = (Inr req_alice_null, [])"
  by (simp add: req_alice_null_def body_alice_null_def bytes_defs)

lemma routes_alice_null:
  "\<not> bytes_in ''GET /stats '' req_alice_null" "bytes_in ''POST /event '' req_alice_null"
  by (simp_all add: req_alice_null_def body_alice_null_def bytes_defs)

lemma receive_alice_null: "receive_body req_alice_null [] = Inr body_alice_null"
  by (simp add: req_alice_null_def body_alice_null_def bytes_defs receive_defs regex_defs)

lemma loads_alice_null:
  "json_loads body_alice_null = Inr (JDict [(''userId'', JStr ''alice''), (''value'', JNull)])"
  by (simp add: body_alice_null_def json_defs)

lemma exact_runtime_simps [simp]:
  "py_hash exact_runtime = exact_hash"
  "orjson_loads exact_runtime = json_loads"
  "float_of_int exact_runtime = (\<lambda>i. Inr (of_int i))"
  "float_of_str exact_runtime = exact_float_of_str"
  "float_add exact_runtime = (\<lambda>x y. x + y)"
  "float_div_int exact_runtime = (\<lambda>x n. x / of_int n)"
  "c_float exact_runtime = (\<lambda>x. x)"
  "float_zero exact_runtime = 0"
  "float_repr exact_runtime = exact_repr"
  by (simp_all add: exact_runtime_def)

lemma shards_initial [simp]: "shards (initial_state rt) = replicate NUM_SHARDS {||}"
  and req_total_initial [simp]: "req_total (initial_state rt) = 0"
  and req_sum_initial [simp]: "req_sum (initial_state rt) = float_zero rt"
  by (simp_all add: initial_state_def)

lemma hash_alice:
  "nat (py_hash exact_runtime (KStr ''alice'') mod int NUM_SHARDS) = 510"
  by (simp add: NUM_SHARDS_def)

lemma add_alice:
  assumes "length sh = NUM_SHARDS"
  shows "add_unique_user exact_runtime (JStr ''alice'') sh
           = Inr (sh[510 := finsert (KStr ''alice'') (sh ! 510)])"
proof -
  have k: "py_key exact_runtime (JStr ''alice'') = Inr (KStr ''alice'')"
    by simp
  show ?thesis
    using add_unique_user_hashable [OF k assms] by (simp only: hash_alice)
qed

text \<open>
  Claim C1.  A failed event is answered with \<open>HTTP_500\<close> and must leave the aggregate
  state as it was, no user added.  The handler breaks this for an event whose \<open>value\<close>
  cannot be converted: the body \<open>{"userId":"alice","value":null}\<close> is answered with
  \<open>HTTP_500\<close>, but line 80 has already put \<open>alice\<close> into shard 510, which was empty.
\<close>

theorem invalid_value_records_user:
  "fst (handle exact_runtime (initial_state exact_runtime) [Data req_alice_null]) = HTTP_500
   \<and> shards (initial_state exact_runtime) ! 510 = {||}
   \<and> shards (snd (handle exact_runtime (initial_state exact_runtime) [Data req_alice_null])) ! 510
       = {|KStr ''alice''|}"
proof -
  let ?S = "initial_state exact_runtime"
  have a: "add_unique_user exact_runtime (dict_get [(''userId'', JStr ''alice''), (''value'', JNull)]
              ''userId'' JNull) (shards ?S)
           = Inr ((shards ?S)[510 := finsert (KStr ''alice'') (shards ?S ! 510)])"
    by (simp add: dict_get_def add_alice)
  have v: "py_float exact_runtime (dict_get [(''userId'', JStr ''alice''), (''value'', JNull)]
              ''value'' (JInt 0)) = Inl TypeError"
    by (simp add: dict_get_def)
  have l: "orjson_loads exact_runtime body_alice_null
             = Inr (JDict [(''userId'', JStr ''alice''), (''value'', JNull)])"
    by (simp add: loads_alice_null)
  have e: "event_try exact_runtime ?S req_alice_null []
     = (Inl TypeError, ?S\<lparr>shards := (shards ?S)[510 := finsert (KStr ''alice'') (shards ?S ! 510)]\<rparr>)"
    by (simp only: event_try_def receive_alice_null sum.case apply_event_value_fails [OF l a v])
  have n: "(510::nat) < NUM_SHARDS"
    by (simp add: NUM_SHARDS_def)
  show ?thesis
    using n by (simp add: handle_event [OF read_alice_null routes_alice_null] e)
qed

lemma failed_event_keeps_state_examples:
  "handle exact_runtime (initial_state exact_runtime) [Data req_truncated]
     = (HTTP_500, initial_state exact_runtime)
   \<and> fst (handle exact_runtime (initial_state exact_runtime) [Data req_alice_null]) = HTTP_500
   \<and> req_total (snd (handle exact_runtime (initial_state exact_runtime) [Data req_alice_null])) = 0
   \<and> req_sum (snd (handle exact_runtime (initial_state exact_runtime) [Data req_alice_null])) = 0"
proof -
  let ?S = "initial_state exact_runtime"
  have l1: "orjson_loads exact_runtime (take 13 body_alice_10) = Inl JSONDecodeError"
    by (simp add: loads_truncated)
  have l2: "orjson_loads exact_runtime body_alice_null
             = Inr (JDict [(''userId'', JStr ''alice''), (''value'', JNull)])"
    by (simp add: loads_alice_null)
  have v2: "py_float exact_runtime (dict_get [(''userId'', JStr ''alice''), (''value'', JNull)]
              ''value'' (JInt 0)) = Inl TypeError"
    by (simp add: dict_get_def)
  show ?thesis
    using failed_event_keeps_state [OF read_truncated routes_truncated,
        of JSONDecodeError exact_runtime ?S]
      failed_event_keeps_state [OF read_alice_null routes_alice_null,
        of TypeError exact_runtime ?S]
      receive_truncated l1 receive_alice_null l2 v2
    by simp
qed

lemma unique_count_replicate [simp]: "unique_count (replicate n {||}) = 0"
  by (simp add: unique_count_def)

lemma unique_count_update:
  assumes "i < length sh"
  shows "unique_count (sh[i := finsert k (sh ! i)])
           = unique_count sh + (if k |\<in>| sh ! i then 0 else 1)"
proof -
  have "sum_list ((map fcard sh)[i := fcard (finsert k (sh ! i))])
          = sum_list (map fcard sh) + fcard (finsert k (sh ! i)) - map fcard sh ! i"
    using assms by (simp add: sum_list_update)
  moreover have "fcard (finsert k (sh ! i)) = fcard (sh ! i) + (if k |\<in>| sh ! i then 0 else 1)"
    by (simp add: fcard_finsert_if)
  ultimately show ?thesis
    using assms by (simp add: unique_count_def map_update)
qed

lemma apply_event_Inr:
  assumes "apply_event rt st b = (Inr response, st')"
  shows "response = http_200 (body_response rt (sint (req_total st')) (unique_count (shards st'))
            (req_sum st') (float_div_int rt (req_sum st') (sint (req_total st'))))
         \<and> req_total st' \<noteq> 0"
  using assms
  by (auto simp: apply_event_def py_truediv_def signed_eq_0_iff Let_def
      split: sum.splits json.splits if_splits)

lemma handle_stats:
  assumes "reader_read 2048 rd = (Inr data_bin, rd')" and "bytes_in ''GET /stats '' data_bin"
  shows "handle rt st rd =
     (http_200 (body_response rt (sint (req_total st)) (unique_count (shards st)) (req_sum st)
        (if req_total st = 0 then float_zero rt
         else float_div_int rt (req_sum st) (sint (req_total st)))), st)"
  using assms
  by (simp add: handle_def handle_try_def stats_response_def py_truediv_def signed_eq_0_iff)

text \<open>
  The average reported by \<open>GET /stats\<close> is \<open>req_sum / req_total\<close> when \<open>req_total\<close> is
  positive and the literal \<open>0.0\<close> when it is 0, so that no division by zero happens; in
  the initial state the four values reported are 0, 0, \<open>0.0\<close> and \<open>0.0\<close>.  A 200 response
  to a write reports \<open>req_sum / req_total\<close> of the state after the write, whose
  \<open>req_total\<close> is not 0.
\<close>

lemma reported_average:
  assumes "reader_read 2048 rd = (Inr data_bin, rd')"
  shows "(bytes_in ''GET /stats '' data_bin \<and> 0 < sint (req_total st) \<longrightarrow>
            handle rt st rd =
              (http_200 (body_response rt (sint (req_total st)) (unique_count (shards st))
                 (req_sum st) (float_div_int rt (req_sum st) (sint (req_total st)))), st))
       \<and> (bytes_in ''GET /stats '' data_bin \<and> req_total st = 0 \<longrightarrow>
            handle rt st rd =
              (http_200 (body_response rt 0 (unique_count (shards st)) (req_sum st)
                 (float_zero rt)), st))
       \<and> (bytes_in ''GET /stats '' data_bin \<longrightarrow>
            handle rt (initial_state rt) rd =
              (http_200 (body_response rt 0 0 (float_zero rt) (float_zero rt)), initial_state rt))
       \<and> (\<not> bytes_in ''GET /stats '' data_bin \<and> bytes_in ''POST /event '' data_bin
            \<and> event_try rt st data_bin rd' = (Inr response, st') \<longrightarrow>
            handle rt st rd = (response, st') \<and> req_total st' \<noteq> 0
            \<and> response =
                http_200 (body_response rt (sint (req_total st')) (unique_count (shards st'))
                  (req_sum st') (float_div_int rt (req_sum st') (sint (req_total st')))))"
proof (intro conjI impI)
  assume "bytes_in ''GET /stats '' data_bin \<and> 0 < sint (req_total st)"
  then show "handle rt st rd =
              (http_200 (body_response rt (sint (req_total st)) (unique_count (shards st))
                 (req_sum st) (float_div_int rt (req_sum st) (sint (req_total st)))), st)"
    using handle_stats [OF assms, of rt st] by auto
next
  assume "bytes_in ''GET /stats '' data_bin \<and> req_total st = 0"
  then show "handle rt st rd =
              (http_200 (body_response rt 0 (unique_count (shards st)) (req_sum st)
                 (float_zero rt)), st)"
    using handle_stats [OF assms, of rt st] by simp
next
  assume "bytes_in ''GET /stats '' data_bin"
  then show "handle rt (initial_state rt) rd =
              (http_200 (body_response rt 0 0 (float_zero rt) (float_zero rt)), initial_state rt)"
    using handle_stats [OF assms, of rt "initial_state rt"] by simp
next
  assume a: "\<not> bytes_in ''GET /stats '' data_bin \<and> bytes_in ''POST /event '' data_bin
            \<and> event_try rt st data_bin rd' = (Inr response, st')"
  then show "handle rt st rd = (response, st')"
    using handle_event [OF assms, of rt st] by simp
  from a obtain b where "apply_event rt st b = (Inr response, st')"
    by (auto simp: event_try_def split: sum.splits)
  then show "req_total st' \<noteq> 0"
    and "response =
                http_200 (body_response rt (sint (req_total st')) (unique_count (shards st'))
                  (req_sum st') (float_div_int rt (req_sum st') (sint (req_total st'))))"
    using apply_event_Inr by blast+
qed

lemma read_stats: "reader_read 2048 [Data req_stats] = (Inr req_stats, [])"
  and route_stats: "bytes_in ''GET /stats '' req_stats"
  by (simp_all add: req_stats_def bytes_defs)

lemma exact_repr_0: "exact_repr 0 = ''0.0''"
  by (simp add: exact_repr_def str_int_def str_nat.simps digit_char_def)

lemma str_nat_0: "str_nat 0 = ''0''"
  by (simp add: str_nat.simps digit_char_def)

lemma read_alice_10: "reader_read 2048 [Data req_alice_10] = (Inr req_alice_10, [])"
  by (simp add: req_alice_10_def body_alice_10_def bytes_defs)

lemma routes_alice_10:
  "\<not> bytes_in ''GET /stats '' req_alice_10" "bytes_in ''POST /event '' req_alice_10"
  by (simp_all add: req_alice_10_def body_alice_10_def bytes_defs)

lemma receive_alice_10: "receive_body req_alice_10 rd = Inr body_alice_10"
  by (simp add: req_alice_10_def body_alice_10_def bytes_defs receive_defs regex_defs)

lemma loads_alice_10:
  "json_loads body_alice_10 = Inr (JDict [(''userId'', JStr ''alice''), (''value'', JInt 10)])"
  by (simp add: body_alice_10_def json_defs)

lemma event_alice_10:
  assumes "length (shards st) = NUM_SHARDS"
  shows "event_try exact_runtime st req_alice_10 rd =
     (if req_total st + 1 = 0 then Inl ZeroDivisionError
      else Inr (http_200 (body_response exact_runtime (sint (req_total st + 1))
                  (unique_count ((shards st)[510 := finsert (KStr ''alice'') (shards st ! 510)]))
                  (req_sum st + 10) ((req_sum st + 10) / of_int (sint (req_total st + 1))))),
      st\<lparr>shards := (shards st)[510 := finsert (KStr ''alice'') (shards st ! 510)],
         req_sum := req_sum st + 10, req_total := req_total st + 1\<rparr>)"
proof -
  have l: "orjson_loads exact_runtime body_alice_10
             = Inr (JDict [(''userId'', JStr ''alice''), (''value'', JInt 10)])"
    by (simp add: loads_alice_10)
  have a: "add_unique_user exact_runtime
             (dict_get [(''userId'', JStr ''alice''), (''value'', JInt 10)] ''userId'' JNull)
             (shards st)
           = Inr ((shards st)[510 := finsert (KStr ''alice'') (shards st ! 510)])"
    using assms by (simp add: dict_get_def add_alice)
  have v: "py_float exact_runtime
             (dict_get [(''userId'', JStr ''alice''), (''value'', JInt 10)] ''value'' (JInt 0))
           = Inr 10"
    by (simp add: dict_get_def)
  show ?thesis
    unfolding event_try_def receive_alice_10 sum.case apply_event_applied [OF l a v]
    by simp
qed

lemma exact_repr_10: "exact_repr 10 = ''10.0''"
  by (simp add: exact_repr_def str_int_def str_nat.simps digit_char_def)

lemma str_nat_1: "str_nat 1 = ''1''" "str_nat (Suc 0) = ''1''"
  by (simp_all add: str_nat.simps digit_char_def)

lemma index_510: "(510::nat) < NUM_SHARDS"
  by (simp add: NUM_SHARDS_def)

lemma reported_average_examples:
  "fst (handle exact_runtime (initial_state exact_runtime) [Data req_stats])
     = http_200 ''{\"totalRequests\":0,\"uniqueUsers\":0,\"sum\":0.0,\"avg\":0.0}''
   \<and> fst (handle exact_runtime (initial_state exact_runtime) [Data req_alice_10])
     = http_200 ''{\"totalRequests\":1,\"uniqueUsers\":1,\"sum\":10.0,\"avg\":10.0}''
   \<and> fst (handle exact_runtime
            (snd (handle exact_runtime (initial_state exact_runtime) [Data req_alice_10]))
            [Data req_stats])
     = http_200 ''{\"totalRequests\":1,\"uniqueUsers\":1,\"sum\":10.0,\"avg\":10.0}''"
proof -
  let ?S = "initial_state exact_runtime"
  let ?S1 = "?S\<lparr>shards := (shards ?S)[510 := finsert (KStr ''alice'') (shards ?S ! 510)],
               req_sum := req_sum ?S + 10, req_total := req_total ?S + 1\<rparr>"
  let ?R = "http_200 (body_response exact_runtime (sint (req_total ?S + 1))
              (unique_count ((shards ?S)[510 := finsert (KStr ''alice'') (shards ?S ! 510)]))
              (req_sum ?S + 10) ((req_sum ?S + 10) / of_int (sint (req_total ?S + 1))))"
  have u: "unique_count ((shards ?S)[510 := finsert (KStr ''alice'') (shards ?S ! 510)]) = 1"
    using unique_count_update [of 510 "shards ?S" "KStr ''alice''"] index_510 by simp
  have e: "event_try exact_runtime ?S req_alice_10 [] = (Inr ?R, ?S1)"
    by (simp add: event_alice_10)
  have w1: "handle exact_runtime ?S [Data req_stats]
              = (http_200 (body_response exact_runtime 0 0 0 0), ?S)"
    using reported_average [OF read_stats, where rt = exact_runtime and st = ?S] route_stats
    by simp
  have w2: "handle exact_runtime ?S [Data req_alice_10] = (?R, ?S1)"
    using reported_average [OF read_alice_10, where rt = exact_runtime and st = ?S
        and response = ?R and st' = ?S1] routes_alice_10 e
    by simp
  have w3: "handle exact_runtime ?S1 [Data req_stats]
              = (http_200 (body_response exact_runtime 1 1 10 (10 / of_int 1)), ?S1)"
    using reported_average [OF read_stats, where rt = exact_runtime and st = ?S1] route_stats u
    by simp
  have c1: "fst (handle exact_runtime ?S [Data req_stats])
     = http_200 ''{\"totalRequests\":0,\"uniqueUsers\":0,\"sum\":0.0,\"avg\":0.0}''"
    unfolding w1 by (simp add: body_response_def exact_repr_0 str_nat_0 str_int_def)
  have c2: "fst (handle exact_runtime ?S [Data req_alice_10])
     = http_200 ''{\"totalRequests\":1,\"uniqueUsers\":1,\"sum\":10.0,\"avg\":10.0}''"
    using u index_510 unfolding w2
    by (simp add: body_response_def exact_repr_10 str_nat_1 str_int_def)
  have c3: "fst (handle exact_runtime ?S1 [Data req_stats])
     = http_200 ''{\"totalRequests\":1,\"uniqueUsers\":1,\"sum\":10.0,\"avg\":10.0}''"
    unfolding w3 by (simp add: body_response_def exact_repr_10 str_nat_1 str_int_def)
  have s1: "snd (handle exact_runtime ?S [Data req_alice_10]) = ?S1"
    unfolding w2 by simp
  show ?thesis
    unfolding s1 by (intro conjI c1 c2 c3)
qed












lemma hash_none: "nat (py_hash exact_runtime KNone mod int NUM_SHARDS) = 0"
  by simp




lemma handle_event_shards:
  assumes "reader_read 2048 rd = (Inr data_bin, rd')"
    and "\<not> bytes_in ''GET /stats '' data_bin" and "bytes_in ''POST /event '' data_bin"
    and "receive_body data_bin rd' = Inr body"
    and "orjson_loads rt body = Inr (JDict kvs)"
    and "py_key rt (dict_get kvs ''userId'' JNull) = Inr k"
    and "length (shards st) = NUM_SHARDS"
  shows "shards (snd (handle rt st rd)) =
           (shards st)[nat (py_hash rt k mod int NUM_SHARDS) :=
              finsert k (shards st ! nat (py_hash rt k mod int NUM_SHARDS))]"
proof (cases "py_float rt (dict_get kvs ''value'' (JInt 0))")
  case (Inl e)
  show ?thesis
    by (simp add: handle_event [OF assms(1-3)] event_try_def assms(4)
        apply_event_value_fails [OF assms(5) add_unique_user_hashable [OF assms(6,7)] Inl])
next
  case (Inr x)
  show ?thesis
    by (simp add: handle_event [OF assms(1-3)] event_try_def assms(4)
        apply_event_applied [OF assms(5) add_unique_user_hashable [OF assms(6,7)] Inr])
qed

text \<open>
  \<open>add_unique_user\<close> is idempotent: adding a hashable identifier that no shard holds
  raises \<open>unique_count()\<close> by exactly 1, and adding it once more changes nothing.  An
  event whose body carries the identifier leaves the shards as \<open>add_unique_user\<close> leaves
  them.
\<close>

lemma add_unique_user_idempotent:
  assumes "py_key rt u = Inr k" and "length sh = NUM_SHARDS"
  shows "\<exists>sh'. add_unique_user rt u sh = Inr sh'
           \<and> ((\<forall>s \<in> set sh. k |\<notin>| s) \<longrightarrow> unique_count sh' = unique_count sh + 1)
           \<and> add_unique_user rt u sh' = Inr sh'
           \<and> (\<forall>rd data_bin rd' body kvs st.
                 reader_read 2048 rd = (Inr data_bin, rd')
                 \<and> \<not> bytes_in ''GET /stats '' data_bin \<and> bytes_in ''POST /event '' data_bin
                 \<and> receive_body data_bin rd' = Inr body
                 \<and> orjson_loads rt body = Inr (JDict kvs)
                 \<and> dict_get kvs ''userId'' JNull = u \<and> shards st = sh
                 \<longrightarrow> shards (snd (handle rt st rd)) = sh')"
proof -
  let ?i = "nat (py_hash rt k mod int NUM_SHARDS)"
  let ?sh = "sh[?i := finsert k (sh ! ?i)]"
  have i: "?i < length sh"
    using assms(2) by (simp add: NUM_SHARDS_def)
  have a: "add_unique_user rt u sh = Inr ?sh"
    by (rule add_unique_user_hashable [OF assms])
  have "length ?sh = NUM_SHARDS"
    using assms(2) by simp
  from add_unique_user_hashable [OF assms(1) this]
  have b: "add_unique_user rt u ?sh = Inr ?sh"
    using i by (simp add: finsert_absorb)
  have c: "unique_count ?sh = unique_count sh + 1" if "\<forall>s \<in> set sh. k |\<notin>| s"
  proof -
    have "k |\<notin>| sh ! ?i"
      using that i by simp
    then show ?thesis
      by (simp add: unique_count_update [OF i])
  qed
  have d: "shards (snd (handle rt st rd)) = ?sh"
    if "reader_read 2048 rd = (Inr data_bin, rd')"
      "\<not> bytes_in ''GET /stats '' data_bin" "bytes_in ''POST /event '' data_bin"
      "receive_body data_bin rd' = Inr body" "orjson_loads rt body = Inr (JDict kvs)"
      "dict_get kvs ''userId'' JNull = u" "shards st = sh"
    for rd data_bin rd' body kvs and st :: "'a aggregate"
    using handle_event_shards [OF that(1-5), of k] that(6,7) assms by simp
  show ?thesis
    using a b c d by blast
qed

lemma add_unique_user_idempotent_examples:
  "add_unique_user exact_runtime (JStr ''alice'') (replicate NUM_SHARDS {||})
     = Inr ((replicate NUM_SHARDS {||})[510 := {|KStr ''alice''|}])
   \<and> unique_count (replicate NUM_SHARDS {||} :: rat pykey fset list) = 0
   \<and> unique_count ((replicate NUM_SHARDS {||} :: rat pykey fset list)
         [510 := {|KStr ''alice''|}]) = 1
   \<and> add_unique_user exact_runtime (JStr ''alice'')
         ((replicate NUM_SHARDS {||})[510 := {|KStr ''alice''|}])
     = Inr ((replicate NUM_SHARDS {||})[510 := {|KStr ''alice''|}])"
proof -
  let ?sh = "replicate NUM_SHARDS {||} :: rat pykey fset list"
  have k: "py_key exact_runtime (JStr ''alice'') = Inr (KStr ''alice'')"
    by simp
  have l: "length ?sh = NUM_SHARDS"
    by simp
  have e: "\<forall>s \<in> set ?sh. KStr ''alice'' |\<notin>| s"
    by simp
  have a: "add_unique_user exact_runtime (JStr ''alice'') ?sh
             = Inr (?sh[510 := {|KStr ''alice''|}])"
    using add_alice [OF l] index_510 by simp
  from add_unique_user_idempotent [OF k l] obtain sh' where
    s: "add_unique_user exact_runtime (JStr ''alice'') ?sh = Inr sh'"
    and c: "(\<forall>s \<in> set ?sh. KStr ''alice'' |\<notin>| s) \<longrightarrow> unique_count sh' = unique_count ?sh + 1"
    and b: "add_unique_user exact_runtime (JStr ''alice'') sh' = Inr sh'"
    by blast
  have "sh' = ?sh[510 := {|KStr ''alice''|}]"
    using s a by simp
  then show ?thesis
    using a b c e by simp
qed

lemma shards_placed_initial: "shards_placed rt (shards (initial_state rt))"
  by (simp add: shards_placed_def)

lemma shards_placed_add:
  assumes "shards_placed rt sh" and "add_unique_user rt u sh = Inr sh'"
  shows "shards_placed rt sh'"
proof (cases "py_key rt u")
  case (Inl e)
  then show ?thesis
    using assms(2) by (simp add: add_unique_user_unhashable)
next
  case (Inr k)
  have l: "length sh = NUM_SHARDS"
    using assms(1) by (simp add: shards_placed_def)
  let ?i = "nat (py_hash rt k mod int NUM_SHARDS)"
  have idx: "?i < length sh"
    using l by (simp add: NUM_SHARDS_def)
  have eq: "sh' = sh[?i := finsert k (sh ! ?i)]"
    using assms(2) add_unique_user_hashable [OF Inr l] by simp
  show ?thesis
    unfolding shards_placed_def
  proof (intro conjI allI impI)
    show "length sh' = NUM_SHARDS"
      using eq l by simp
  next
    fix j ka
    assume "j < NUM_SHARDS" and "ka |\<in>| sh' ! j"
    then show "nat (py_hash rt ka mod int NUM_SHARDS) = j"
      using assms(1) eq idx by (cases "j = ?i") (auto simp: shards_placed_def)
  qed
qed

lemma shards_placed_apply_event:
  assumes "shards_placed rt (shards st)" and "apply_event rt st b = (r, st')"
  shows "shards_placed rt (shards st')"
  using assms
  by (auto simp: apply_event_def Let_def shards_placed_add
      split: sum.splits json.splits)

lemma shards_placed_handle:
  assumes "shards_placed rt (shards st)"
  shows "shards_placed rt (shards (snd (handle rt st rd)))"
  using assms
  by (auto simp: handle_def handle_try_def event_try_def
      split: sum.splits prod.splits dest: shards_placed_apply_event)

lemma shards_placed_serve:
  "shards_placed rt (shards st) \<Longrightarrow> shards_placed rt (shards (serve rt st rds))"
  by (induction rds arbitrary: st) (simp_all add: shards_placed_handle)

lemma fcard_ffUnion_disjoint:
  assumes "\<forall>i j. i < length sh \<and> j < length sh \<and> i \<noteq> j \<longrightarrow> sh ! i |\<inter>| sh ! j = {||}"
  shows "fcard (ffUnion (fset_of_list sh)) = sum_list (map fcard sh)"
  using assms
proof (induction sh)
  case Nil
  then show ?case by simp
next
  case (Cons s sh)
  have "sh ! i |\<inter>| sh ! j = {||}" if "i < length sh" "j < length sh" "i \<noteq> j" for i j
    using Cons.prems [rule_format, of "Suc i" "Suc j"] that by simp
  then have ih: "fcard (ffUnion (fset_of_list sh)) = sum_list (map fcard sh)"
    using Cons.IH by blast
  have "s |\<inter>| t = {||}" if "t \<in> set sh" for t
  proof -
    from that obtain j where "j < length sh" "t = sh ! j"
      by (auto simp: in_set_conv_nth)
    then show ?thesis
      using Cons.prems [rule_format, of 0 "Suc j"] by simp
  qed
  then have "s |\<inter>| ffUnion (fset_of_list sh) = {||}"
    by (auto simp: fset_of_list.rep_eq ffUnion.rep_eq fset_eq_iff)
  then show ?case
    by (simp add: fcard_funion_disjoint ih)
qed

lemma handle_alice_10:
  assumes "length (shards st) = NUM_SHARDS"
  shows "snd (handle exact_runtime st [Data req_alice_10]) =
           st\<lparr>shards := (shards st)[510 := finsert (KStr ''alice'') (shards st ! 510)],
              req_sum := req_sum st + 10, req_total := req_total st + 1\<rparr>"
  by (simp add: handle_event [OF read_alice_10 routes_alice_10] event_alice_10 [OF assms])

text \<open>
  Claim C8.  In every state that serving connections from the initial state reaches,
  the store has \<open>NUM_SHARDS\<close> shards, an identifier is a member of at most one shard,
  namely the one its hash selects, and \<open>unique_count()\<close>, the sum of the sizes of the
  shards, is the number of distinct identifiers held.  \<open>shard_index\<close> is a function of
  the identifier and its result is below \<open>NUM_SHARDS\<close>.
\<close>

theorem shard_store_invariant:
  assumes "sh = shards (serve rt (initial_state rt) rds)"
  shows "length sh = NUM_SHARDS
       \<and> (\<forall>i j k. i < NUM_SHARDS \<and> j < NUM_SHARDS \<and> k |\<in>| sh ! i \<and> k |\<in>| sh ! j
             \<longrightarrow> i = j)
       \<and> (\<forall>i k. i < NUM_SHARDS \<and> k |\<in>| sh ! i
             \<longrightarrow> nat (py_hash rt k mod int NUM_SHARDS) = i)
       \<and> unique_count sh = sum_list (map fcard sh)
       \<and> unique_count sh = fcard (ffUnion (fset_of_list sh))
       \<and> (\<forall>u i. shard_index rt u = Inr i \<longrightarrow> i < NUM_SHARDS)"
proof -
  have p: "shards_placed rt sh"
    unfolding assms by (rule shards_placed_serve [OF shards_placed_initial])
  then have l: "length sh = NUM_SHARDS"
    and h: "\<And>i k. i < NUM_SHARDS \<Longrightarrow> k |\<in>| sh ! i \<Longrightarrow> nat (py_hash rt k mod int NUM_SHARDS) = i"
    by (simp_all add: shards_placed_def)
  have d: "sh ! i |\<inter>| sh ! j = {||}" if "i < length sh" "j < length sh" "i \<noteq> j" for i j
  proof (rule ccontr)
    assume "sh ! i |\<inter>| sh ! j \<noteq> {||}"
    then obtain k where "k |\<in>| sh ! i" "k |\<in>| sh ! j"
      by auto
    then show False
      using h [of i k] h [of j k] that l by simp
  qed
  have u: "fcard (ffUnion (fset_of_list sh)) = sum_list (map fcard sh)"
    by (rule fcard_ffUnion_disjoint) (use d in blast)
  show ?thesis
    using l h u by (auto simp: unique_count_def dest: shard_index_bound)
qed

theorem shard_store_invariant_witness:
  "KStr ''alice'' |\<in>| shards (serve exact_runtime (initial_state exact_runtime)
       [[Data req_alice_10]]) ! 510
   \<and> nat (py_hash exact_runtime (KStr ''alice'') mod int NUM_SHARDS) = 510
   \<and> shard_index exact_runtime (JStr ''alice'') = Inr 510
   \<and> length (shards (serve exact_runtime (initial_state exact_runtime) [[Data req_alice_10]]))
       = NUM_SHARDS
   \<and> unique_count (shards (serve exact_runtime (initial_state exact_runtime)
       [[Data req_alice_10]])) = 1
   \<and> fcard (ffUnion (fset_of_list (shards (serve exact_runtime (initial_state exact_runtime)
       [[Data req_alice_10]])))) = 1"
proof -
  let ?S = "initial_state exact_runtime"
  let ?sh = "shards (serve exact_runtime ?S [[Data req_alice_10]])"
  have s: "?sh = (shards ?S)[510 := finsert (KStr ''alice'') (shards ?S ! 510)]"
    by (simp add: handle_alice_10)
  have m: "KStr ''alice'' |\<in>| ?sh ! 510"
    unfolding s using index_510 by simp
  have u: "unique_count ?sh = 1"
    unfolding s using unique_count_update [of 510 "shards ?S" "KStr ''alice''"] index_510
    by simp
  have i: "shard_index exact_runtime (JStr ''alice'') = Inr 510"
    using hash_alice by (simp add: shard_index_def)
  note w = shard_store_invariant [of ?sh exact_runtime "[[Data req_alice_10]]", OF refl]
  show ?thesis
    using w m u i hash_alice index_510 by auto
qed

lemma handle_alice_null:
  assumes "length (shards st) = NUM_SHARDS"
  shows "handle exact_runtime st [Data req_alice_null] =
           (HTTP_500, st\<lparr>shards := (shards st)[510 := finsert (KStr ''alice'') (shards st ! 510)]\<rparr>)"
proof -
  have a: "add_unique_user exact_runtime (dict_get [(''userId'', JStr ''alice''), (''value'', JNull)]
              ''userId'' JNull) (shards st)
           = Inr ((shards st)[510 := finsert (KStr ''alice'') (shards st ! 510)])"
    using assms by (simp add: dict_get_def add_alice)
  have v: "py_float exact_runtime (dict_get [(''userId'', JStr ''alice''), (''value'', JNull)]
              ''value'' (JInt 0)) = Inl TypeError"
    by (simp add: dict_get_def)
  have l: "orjson_loads exact_runtime body_alice_null
             = Inr (JDict [(''userId'', JStr ''alice''), (''value'', JNull)])"
    by (simp add: loads_alice_null)
  have e: "event_try exact_runtime st req_alice_null []
     = (Inl TypeError, st\<lparr>shards := (shards st)[510 := finsert (KStr ''alice'') (shards st ! 510)]\<rparr>)"
    by (simp only: event_try_def receive_alice_null sum.case apply_event_value_fails [OF l a v])
  show ?thesis
    by (simp add: handle_event [OF read_alice_null routes_alice_null] e)
qed

lemma str_nat_55: "str_nat 55 = ''55''"
  by (simp add: str_nat.simps digit_char_def)

lemma str_nat_57: "str_nat 57 = ''57''"
  by (simp add: str_nat.simps digit_char_def)

lemma unique_count_alice:
  "unique_count ((replicate NUM_SHARDS {||})[510 := {|KStr ''alice'' :: rat pykey|}]) = 1"
  using unique_count_update [of 510 "replicate NUM_SHARDS {||}" "KStr ''alice'' :: rat pykey"]
    index_510 by simp

text \<open>
  Claim C6.  A \<open>GET /stats\<close> before any successful write must report 0 requests, 0
  users, sum 0 and average 0.  The handler breaks this after a write that failed on its
  \<open>value\<close>: the write is answered with \<open>HTTP_500\<close>, and the \<open>GET /stats\<close> that follows
  reports one unique user.
\<close>

theorem stats_after_failed_write:
  "fst (handle exact_runtime (initial_state exact_runtime) [Data req_alice_null]) = HTTP_500
   \<and> fst (handle exact_runtime
            (snd (handle exact_runtime (initial_state exact_runtime) [Data req_alice_null]))
            [Data req_stats])
     = HTTP_200_PREF @ ''55'' @ CRLF @ CRLF
       @ ''{\"totalRequests\":0,\"uniqueUsers\":1,\"sum\":0.0,\"avg\":0.0}''"
proof -
  let ?S = "initial_state exact_runtime"
  let ?S1 = "?S\<lparr>shards := (shards ?S)[510 := finsert (KStr ''alice'') (shards ?S ! 510)]\<rparr>"
  have h: "handle exact_runtime ?S [Data req_alice_null] = (HTTP_500, ?S1)"
    by (rule handle_alice_null) simp
  have u: "unique_count (shards ?S1) = 1"
    using index_510 by (simp add: unique_count_alice)
  have t: "req_total ?S1 = 0" and m: "req_sum ?S1 = 0"
    by simp_all
  have "fst (handle exact_runtime ?S1 [Data req_stats])
          = http_200 (body_response exact_runtime 0 1 0 0)"
    unfolding handle_stats [OF read_stats route_stats] fst_conv u t m by simp
  also have "\<dots> = HTTP_200_PREF @ ''55'' @ CRLF @ CRLF
       @ ''{\"totalRequests\":0,\"uniqueUsers\":1,\"sum\":0.0,\"avg\":0.0}''"
  proof -
    have b: "body_response exact_runtime 0 1 0 0
               = ''{\"totalRequests\":0,\"uniqueUsers\":1,\"sum\":0.0,\"avg\":0.0}''"
      by (simp add: body_response_def exact_repr_0 str_nat_1 str_int_def str_nat_0)
    have n: "length ''{\"totalRequests\":0,\"uniqueUsers\":1,\"sum\":0.0,\"avg\":0.0}'' = 55"
      by simp
    show ?thesis
      unfolding http_200_def b n str_nat_55 by (simp add: BLANK_LINE_def)
  qed
  finally show ?thesis
    unfolding h by simp
qed

text \<open>
  Claim C7.  The first successful write that carries an identifier must raise
  \<open>unique_count()\<close> by exactly 1.  The handler breaks this for an identifier that a
  failed write has carried before: the write of \<open>alice\<close> with the value \<open>null\<close> is
  answered with \<open>HTTP_500\<close> and leaves one user counted, and her first successful
  write, answered with a 200, leaves the count at 1.
\<close>

theorem first_write_after_failed_write:
  "fst (handle exact_runtime (initial_state exact_runtime) [Data req_alice_null]) = HTTP_500
   \<and> unique_count (shards (snd (handle exact_runtime (initial_state exact_runtime)
         [Data req_alice_null]))) = 1
   \<and> fst (handle exact_runtime
            (snd (handle exact_runtime (initial_state exact_runtime) [Data req_alice_null]))
            [Data req_alice_10])
     = HTTP_200_PREF @ ''57'' @ CRLF @ CRLF
       @ ''{\"totalRequests\":1,\"uniqueUsers\":1,\"sum\":10.0,\"avg\":10.0}''
   \<and> unique_count (shards (snd (handle exact_runtime
         (snd (handle exact_runtime (initial_state exact_runtime) [Data req_alice_null]))
         [Data req_alice_10]))) = 1"
proof -
  let ?S = "initial_state exact_runtime"
  let ?S1 = "?S\<lparr>shards := (shards ?S)[510 := finsert (KStr ''alice'') (shards ?S ! 510)]\<rparr>"
  have h: "handle exact_runtime ?S [Data req_alice_null] = (HTTP_500, ?S1)"
    by (rule handle_alice_null) simp
  have s1: "shards ?S1 = (replicate NUM_SHARDS {||})[510 := {|KStr ''alice''|}]"
    using index_510 by simp
  have l: "length (shards ?S1) = NUM_SHARDS"
    by simp
  have s2: "(shards ?S1)[510 := finsert (KStr ''alice'') (shards ?S1 ! 510)] = shards ?S1"
    using index_510 by simp
  have e: "event_try exact_runtime ?S1 req_alice_10 [] =
     (Inr (http_200 (body_response exact_runtime 1 1 10 10)),
      ?S1\<lparr>shards := shards ?S1, req_sum := 10, req_total := 1\<rparr>)"
    unfolding event_alice_10 [OF l] s2 unfolding s1 unique_count_alice by simp
  have w: "handle exact_runtime ?S1 [Data req_alice_10] =
     (http_200 (body_response exact_runtime 1 1 10 10),
      ?S1\<lparr>shards := shards ?S1, req_sum := 10, req_total := 1\<rparr>)"
    by (simp only: handle_event [OF read_alice_10 routes_alice_10] e prod.case sum.case)
  have b: "http_200 (body_response exact_runtime 1 1 10 10)
     = HTTP_200_PREF @ ''57'' @ CRLF @ CRLF
       @ ''{\"totalRequests\":1,\"uniqueUsers\":1,\"sum\":10.0,\"avg\":10.0}''"
  proof -
    have b: "body_response exact_runtime 1 1 10 10
               = ''{\"totalRequests\":1,\"uniqueUsers\":1,\"sum\":10.0,\"avg\":10.0}''"
      by (simp add: body_response_def exact_repr_10 str_nat_1 str_int_def)
    have n: "length ''{\"totalRequests\":1,\"uniqueUsers\":1,\"sum\":10.0,\"avg\":10.0}'' = 57"
      by simp
    show ?thesis
      unfolding http_200_def b n str_nat_57 by (simp add: BLANK_LINE_def)
  qed
  show ?thesis
    unfolding h snd_conv fst_conv w b unfolding s1 unique_count_alice
    using index_510 by (simp add: unique_count_alice)
qed


lemma apply_event_counters:
  assumes "apply_event rt st b = (r, st')"
  shows "(req_total st' = req_total st \<and> req_sum st' = req_sum st)
         \<or> (\<exists>kvs k x. orjson_loads rt b = Inr (JDict kvs)
               \<and> py_key rt (dict_get kvs ''userId'' JNull) = Inr k
               \<and> py_float rt (dict_get kvs ''value'' (JInt 0)) = Inr x)"
  using assms
  by (auto simp: apply_event_def Let_def add_unique_user_def shard_index_def
      split: sum.splits json.splits if_splits)













lemma read_three_reads:
  "reader_read 2048 conn_three_reads = (Inr req_truncated, tl conn_three_reads)"
  by (simp add: conn_three_reads_def req_truncated_def body_alice_10_def bytes_defs)

lemma read_two_reads:
  "reader_read 2048 conn_two_reads = (Inr req_truncated, tl conn_two_reads)"
  by (simp add: conn_two_reads_def req_truncated_def body_alice_10_def bytes_defs)

lemma split_truncated: "split_request req_truncated = Inr (take 13 body_alice_10, 16)"
  by (simp add: req_truncated_def body_alice_10_def bytes_defs split_request_def bytes_split_def
      regex_defs)

lemma receive_three_reads:
  "receive_body req_truncated (tl conn_three_reads) = Inr (take 21 body_alice_10)"
  by (simp add: receive_body_def split_truncated read_remaining_def conn_three_reads_def
      body_alice_10_def)

lemma receive_two_reads:
  "receive_body req_truncated (tl conn_two_reads) = Inr body_alice_10"
  by (simp add: receive_body_def split_truncated read_remaining_def conn_two_reads_def
      body_alice_10_def)

lemma loads_cut_short: "json_loads (take 21 body_alice_10) = Inl JSONDecodeError"
  by (simp add: body_alice_10_def json_defs)

text \<open>
  Claim C3.  When the first read holds less of the body than \<open>Content-Length\<close> declares,
  the handler must read until the declared count is there, also when the rest comes in
  two or more reads.  The handler breaks this: lines 76 and 77 make one further read,
  which returns what has arrived.  On the connection that delivers the 29 bytes of the
  body as 13, 8 and 8, line 79 is given the first 21 bytes, the decoding fails, and the
  response is \<open>HTTP_500\<close>; the same bytes delivered as 13 and 16 are decoded whole.
\<close>

theorem remainder_in_two_reads:
  "take 13 body_alice_10 @ take 8 (drop 13 body_alice_10) @ drop 21 body_alice_10
     = body_alice_10
   \<and> length body_alice_10 = 29
   \<and> reader_read 2048 conn_three_reads = (Inr req_truncated, tl conn_three_reads)
   \<and> split_request req_truncated = Inr (take 13 body_alice_10, 16)
   \<and> receive_body req_truncated (tl conn_three_reads) = Inr (take 21 body_alice_10)
   \<and> length (take 21 body_alice_10) = 21
   \<and> handle exact_runtime (initial_state exact_runtime) conn_three_reads
       = (HTTP_500, initial_state exact_runtime)
   \<and> receive_body req_truncated (tl conn_two_reads) = Inr body_alice_10
   \<and> fst (handle exact_runtime (initial_state exact_runtime) conn_two_reads)
       = HTTP_200_PREF @ ''57'' @ CRLF @ CRLF
         @ ''{\"totalRequests\":1,\"uniqueUsers\":1,\"sum\":10.0,\"avg\":10.0}''"
proof -
  let ?S = "initial_state exact_runtime"
  have c1: "take 13 body_alice_10 @ take 8 (drop 13 body_alice_10) @ drop 21 body_alice_10
     = body_alice_10"
    by (simp add: body_alice_10_def)
  have c2: "length body_alice_10 = 29"
    by (simp add: body_alice_10_def)
  have c6: "length (take 21 body_alice_10) = 21"
    by (simp add: body_alice_10_def)
  have l: "orjson_loads exact_runtime (take 21 body_alice_10) = Inl JSONDecodeError"
    by (simp add: loads_cut_short)
  have c7: "handle exact_runtime ?S conn_three_reads = (HTTP_500, ?S)"
    by (simp add: handle_event [OF read_three_reads routes_truncated] event_try_def
        receive_three_reads apply_event_loads_fails [OF l])
  have l2: "orjson_loads exact_runtime body_alice_10
             = Inr (JDict [(''userId'', JStr ''alice''), (''value'', JInt 10)])"
    by (simp add: loads_alice_10)
  have a: "add_unique_user exact_runtime
             (dict_get [(''userId'', JStr ''alice''), (''value'', JInt 10)] ''userId'' JNull)
             (shards ?S)
           = Inr ((shards ?S)[510 := finsert (KStr ''alice'') (shards ?S ! 510)])"
    by (simp add: dict_get_def add_alice)
  have v: "py_float exact_runtime
             (dict_get [(''userId'', JStr ''alice''), (''value'', JInt 10)] ''value'' (JInt 0))
           = Inr 10"
    by (simp add: dict_get_def)
  have u: "unique_count ((shards ?S)[510 := finsert (KStr ''alice'') (shards ?S ! 510)]) = 1"
    using unique_count_update [of 510 "shards ?S" "KStr ''alice''"] index_510 by simp
  have e: "fst (event_try exact_runtime ?S req_truncated (tl conn_two_reads))
             = Inr (http_200 (body_response exact_runtime 1 1 10 10))"
    unfolding event_try_def receive_two_reads sum.case apply_event_applied [OF l2 a v]
    using u by simp
  have b: "http_200 (body_response exact_runtime 1 1 10 10)
     = HTTP_200_PREF @ ''57'' @ CRLF @ CRLF
       @ ''{\"totalRequests\":1,\"uniqueUsers\":1,\"sum\":10.0,\"avg\":10.0}''"
  proof -
    have b: "body_response exact_runtime 1 1 10 10
               = ''{\"totalRequests\":1,\"uniqueUsers\":1,\"sum\":10.0,\"avg\":10.0}''"
      by (simp add: body_response_def exact_repr_10 str_nat_1 str_int_def)
    have n: "length ''{\"totalRequests\":1,\"uniqueUsers\":1,\"sum\":10.0,\"avg\":10.0}'' = 57"
      by simp
    show ?thesis
      unfolding http_200_def b n str_nat_57 by (simp add: BLANK_LINE_def)
  qed
  have c9: "fst (handle exact_runtime ?S conn_two_reads)
       = HTTP_200_PREF @ ''57'' @ CRLF @ CRLF
         @ ''{\"totalRequests\":1,\"uniqueUsers\":1,\"sum\":10.0,\"avg\":10.0}''"
    using e unfolding handle_event [OF read_two_reads routes_truncated] b [symmetric]
    by (cases "event_try exact_runtime ?S req_truncated (tl conn_two_reads)") simp
  show ?thesis
    by (intro conjI c1 c2 read_three_reads split_truncated receive_three_reads c6 c7
        receive_two_reads c9)
qed

lemma decode_event_body:
  "decode_event rt rd =
     (case reader_read 2048 rd of
        (Inl e, rd') \<Rightarrow> None
      | (Inr data_bin, rd') \<Rightarrow>
          if bytes_in ''GET /stats '' data_bin \<or> \<not> bytes_in ''POST /event '' data_bin then None
          else (case receive_body data_bin rd' of
                  Inl e \<Rightarrow> None
                | Inr body_sofar \<Rightarrow> decode_body rt body_sofar))"
  by (simp add: decode_event_def decode_body_def split: prod.splits sum.splits)

lemma finish_decoded:
  assumes "decode_body rt b = Some (k, x)" and "length (shards st) = NUM_SHARDS"
  shows "\<exists>r. finish rt st b =
           (Done r,
            st\<lparr>shards := (shards st)[nat (py_hash rt k mod int NUM_SHARDS) :=
                         finsert k (shards st ! nat (py_hash rt k mod int NUM_SHARDS))],
              req_sum := c_float rt (float_add rt (req_sum st) x),
              req_total := req_total st + 1\<rparr>)"
proof -
  from assms(1) obtain kvs where
    l: "orjson_loads rt b = Inr (JDict kvs)"
    and u: "py_key rt (dict_get kvs ''userId'' JNull) = Inr k"
    and v: "py_float rt (dict_get kvs ''value'' (JInt 0)) = Inr x"
    by (auto simp: decode_body_def split: sum.splits json.splits)
  show ?thesis
    by (simp add: finish_def
        apply_event_applied [OF l add_unique_user_hashable [OF u assms(2)] v])
qed

lemma finish_not_decoded:
  assumes "decode_body rt b = None" and "finish rt st b = (t, st')"
  shows "is_done t \<and> req_total st' = req_total st \<and> req_sum st' = req_sum st"
proof -
  obtain res st1 where a: "apply_event rt st b = (res, st1)"
    by (cases "apply_event rt st b")
  have "req_total st1 = req_total st \<and> req_sum st1 = req_sum st"
    using apply_event_counters [OF a] assms(1) by (auto simp: decode_body_def)
  then show ?thesis
    using assms(2) a by (cases res) (auto simp: finish_def)
qed

lemma finish_placed:
  assumes "shards_placed rt (shards st)" and "finish rt st b = (t, st')"
  shows "shards_placed rt (shards st')"
  using assms
  by (auto simp: finish_def split: prod.splits sum.splits dest: shards_placed_apply_event)

lemma finish_effect:
  assumes "shards_placed rt (shards st)" and "finish rt st b = (t, st')"
  shows "shards_placed rt (shards st') \<and> is_done t \<and> counted rt (decode_body rt b) st st'"
proof (cases "decode_body rt b")
  case None
  then show ?thesis
    using finish_not_decoded [OF None assms(2)] finish_placed [OF assms] by simp
next
  case (Some e)
  obtain k x where e: "e = (k, x)"
    by (cases e)
  have l: "length (shards st) = NUM_SHARDS"
    using assms(1) by (simp add: shards_placed_def)
  from finish_decoded [OF Some [unfolded e] l] assms(2)
  show ?thesis
    using finish_placed [OF assms] by (auto simp: Some e)
qed

lemma further_segment_effect:
  assumes "shards_placed rt (shards st)" and "after_further_read rt st b n rd = (t, st')"
  shows "shards_placed rt (shards st') \<and> is_done t
         \<and> counted rt (pending rt (Reading b n rd)) st st'"
proof (cases "fst (reader_read (nat n) rd)")
  case (Inl e)
  then show ?thesis
    using assms by (auto simp: after_further_read_def)
next
  case (Inr extra)
  then have "finish rt st (b @ extra) = (t, st')"
    using assms(2) by (simp add: after_further_read_def)
  from finish_effect [OF assms(1) this] show ?thesis
    by (simp add: Inr)
qed

lemma first_segment_effect:
  assumes "shards_placed rt (shards st)" and "after_first_read rt st rd = (t, st')"
  shows "shards_placed rt (shards st')
         \<and> (if is_done t then counted rt (decode_event rt rd) st st'
             else st' = st \<and> pending rt t = decode_event rt rd)"
proof (cases "reader_read 2048 rd")
  case (Pair res rd')
  show ?thesis
  proof (cases res)
    case (Inl e)
    then show ?thesis
      using assms Pair by (auto simp: after_first_read_def decode_event_body)
  next
    case (Inr data_bin)
    note r = Pair [unfolded Inr]
    show ?thesis
    proof (cases "\<not> bytes_in ''GET /stats '' data_bin \<and> bytes_in ''POST /event '' data_bin")
      case False
      then show ?thesis
        using assms r
        by (auto simp: after_first_read_def decode_event_body split: sum.splits if_splits)
    next
      case True
      show ?thesis
      proof (cases "split_request data_bin")
        case (Inl e)
        then show ?thesis
          using assms r True
          by (auto simp: after_first_read_def decode_event_body receive_body_def)
      next
        case (Inr p)
        obtain b n where p: "p = (b, n)"
          by (cases p)
        show ?thesis
        proof (cases "n > 0")
          case True
          then show ?thesis
            using assms r \<open>\<not> bytes_in ''GET /stats '' data_bin \<and> bytes_in ''POST /event '' data_bin\<close>
              Inr p
            by (auto simp: after_first_read_def decode_event_body receive_body_def
                read_remaining_def split: sum.splits)
        next
          case False
          then have f: "finish rt st b = (t, st')"
            using assms(2) r True Inr p by (simp add: after_first_read_def)
          have d: "decode_event rt rd = decode_body rt b"
            using r True Inr p False
            by (simp add: decode_event_body receive_body_def read_remaining_def)
          from finish_effect [OF assms(1) f] show ?thesis
            by (simp add: d)
        qed
      qed
    qed
  qed
qed

lemma count_list_update_None:
  assumes "i < length ps"
  shows "count_list (ps[i := None]) (Some e) + (if ps ! i = Some e then 1 else 0)
           = count_list ps (Some e)"
  using assms
proof (induction ps arbitrary: i)
  case Nil
  then show ?case by simp
next
  case (Cons p ps)
  then show ?case
    by (cases i) auto
qed

lemma count_list_map_filter:
  "count_list (map f xs) (Some e) = count_list (List.map_filter f xs) e"
  by (induction xs) (auto split: option.splits)

end
